theory Spec2Isabelle
  imports Main "HOL-Library.AList"
begin

section \<open>twisted.enterprise.adbapi: the data model\<close>

text \<open>
  The module wraps a blocking DB-API 2.0 driver. The driver, the user's callables, the
  thread pool and the reactor are not part of the module: the driver and the callables
  are parameters of the model, and every call the module issues on them is recorded in a
  trace, so that "commit is invoked once" is a statement about that trace.
\<close>

subsection \<open>Python values, exceptions, object identities\<close>

datatype pyval = PyNone | PyInt int | PyStr string | PyList "pyval list"

datatype exn =
    AttributeError string   \<comment> \<open>a missing attribute, named\<close>
  | Exception string        \<comment> \<open>\<^verbatim>\<open>raise Exception("...")\<close>\<close>
  | DbError string          \<comment> \<open>anything raised by the driver or by a user callable\<close>

type_synonym tid = nat      \<comment> \<open>what \<^verbatim>\<open>thread.get_ident()\<close> returns\<close>
type_synonym conn = nat     \<comment> \<open>identity of a DB-API connection object\<close>
type_synonym cursor = nat   \<comment> \<open>identity of a DB-API cursor object\<close>
type_synonym hook = nat     \<comment> \<open>identity of a \<^verbatim>\<open>cp_openfun\<close> callable\<close>
type_synonym trigger = nat  \<comment> \<open>identity of a reactor event trigger\<close>
type_synonym kwargs = "string \<rightharpoonup> pyval"

subsection \<open>Calls on the collaborators and their trace\<close>

datatype call =
    DbConnect "pyval list" kwargs               \<comment> \<open>\<^verbatim>\<open>dbapi.connect(*connargs, **connkw)\<close>\<close>
  | Openfun hook conn                            \<comment> \<open>\<^verbatim>\<open>self.openfun(conn)\<close>\<close>
  | ConnCursor conn                              \<comment> \<open>\<^verbatim>\<open>conn.cursor()\<close>\<close>
  | ConnCommit conn                              \<comment> \<open>\<^verbatim>\<open>conn.commit()\<close>\<close>
  | ConnRollback conn                            \<comment> \<open>\<^verbatim>\<open>conn.rollback()\<close>\<close>
  | ConnClose conn                               \<comment> \<open>\<^verbatim>\<open>conn.close()\<close>\<close>
  | CursorCall cursor string "pyval list" kwargs \<comment> \<open>\<^verbatim>\<open>getattr(cursor, name)(*args, **kw)\<close>\<close>

datatype outcome = Raised exn | Returned pyval | Created nat

type_synonym event = "call \<times> outcome"

datatype logmsg = NotCompliant | NotThreadSafe | Connecting string | Closing string

text \<open>
  The driver and the user's hook are deterministic but arbitrary: whether a call raises,
  and what a value-returning call returns, may depend on everything that happened before.
  Objects (connections, cursors) are created by the driver's constructors; a new object
  is distinct from every object created earlier, so identities are drawn from a counter.
\<close>

record driver =
  raises :: "event list \<Rightarrow> call \<Rightarrow> exn option"
  returns :: "event list \<Rightarrow> call \<Rightarrow> pyval"

record world =
  trace :: "event list"
  next_id :: nat
  logged :: "logmsg list"
  triggers :: "trigger list"     \<comment> \<open>event triggers registered with the reactor\<close>
  next_trigger :: nat

definition invoke :: "driver \<Rightarrow> call \<Rightarrow> world \<Rightarrow> (exn + pyval) \<times> world" where
  "invoke D c w =
     (case raises D (trace w) c of
        Some e \<Rightarrow> (Inl e, w\<lparr>trace := trace w @ [(c, Raised e)]\<rparr>)
      | None \<Rightarrow> (let v = returns D (trace w) c
                 in (Inr v, w\<lparr>trace := trace w @ [(c, Returned v)]\<rparr>)))"

definition create :: "driver \<Rightarrow> call \<Rightarrow> world \<Rightarrow> (exn + nat) \<times> world" where
  "create D c w =
     (case raises D (trace w) c of
        Some e \<Rightarrow> (Inl e, w\<lparr>trace := trace w @ [(c, Raised e)]\<rparr>)
      | None \<Rightarrow> (Inr (next_id w),
                 w\<lparr>trace := trace w @ [(c, Created (next_id w))], next_id := Suc (next_id w)\<rparr>))"

definition log_msg :: "logmsg \<Rightarrow> world \<Rightarrow> world" where
  "log_msg m w = w\<lparr>logged := logged w @ [m]\<rparr>"

subsection \<open>The thread pool and the reactor\<close>

text \<open>
  Modelled from the spec: \<^verbatim>\<open>twisted.python.threadpool.ThreadPool\<close> is not in the given
  source. The spec gives it bounded min/max worker threads and a start/stop lifecycle;
  the model keeps the two bounds it was built with and whether it has been started.
\<close>

record threadpool =
  minthreads :: int
  maxthreads :: int
  started :: bool

definition ThreadPool :: "int \<Rightarrow> int \<Rightarrow> threadpool" where
  "ThreadPool mn mx = \<lparr>minthreads = mn, maxthreads = mx, started = False\<rparr>"

definition threadpool_start :: "threadpool \<Rightarrow> threadpool" where
  "threadpool_start tp = tp\<lparr>started := True\<rparr>"

definition threadpool_stop :: "threadpool \<Rightarrow> threadpool" where
  "threadpool_stop tp = tp\<lparr>started := False\<rparr>"

text \<open>
  Modelled from the spec: \<^verbatim>\<open>twisted.internet.reactor\<close> is not in the given source. The
  spec treats the startup and shutdown triggers as thin wiring; registering one
  (\<^verbatim>\<open>callWhenRunning\<close> before the reactor runs, \<^verbatim>\<open>addSystemEventTrigger\<close>) returns a
  new trigger identity, removing one forgets it.
\<close>

definition addTrigger :: "world \<Rightarrow> trigger \<times> world" where
  "addTrigger w =
     (next_trigger w,
      w\<lparr>triggers := triggers w @ [next_trigger w], next_trigger := Suc (next_trigger w)\<rparr>)"

definition removeSystemEventTrigger :: "trigger \<Rightarrow> world \<Rightarrow> world" where
  "removeSystemEventTrigger g w = w\<lparr>triggers := removeAll g (triggers w)\<rparr>"

subsection \<open>class Transaction\<close>

text \<open>
  \<^verbatim>\<open>_cursor = None\<close> is the class attribute, so a handle's cursor is optional;
  \<^verbatim>\<open>_connection\<close> is set by the constructor.
\<close>

record transaction =
  t_connection :: conn
  t_cursor :: "cursor option"

definition reopen :: "driver \<Rightarrow> transaction \<Rightarrow> world \<Rightarrow> (exn + unit) \<times> transaction \<times> world" where
  "reopen D t w =
     (let (r, w1) = (case t_cursor t of
                       Some c \<Rightarrow> invoke D (CursorCall c ''close'' [] Map.empty) w
                     | None \<Rightarrow> (Inr PyNone, w))
      in case r of
           Inl e \<Rightarrow> (Inl e, t, w1)
         | Inr _ \<Rightarrow>
             (case create D (ConnCursor (t_connection t)) w1 of
                (Inl e, w2) \<Rightarrow> (Inl e, t, w2)
              | (Inr c, w2) \<Rightarrow> (Inr (), t\<lparr>t_cursor := Some c\<rparr>, w2)))"

definition Transaction_init :: "driver \<Rightarrow> conn \<Rightarrow> world \<Rightarrow> (exn + transaction) \<times> world" where
  "Transaction_init D connection w =
     (case reopen D \<lparr>t_connection = connection, t_cursor = None\<rparr> w of
        (Inl e, t, w') \<Rightarrow> (Inl e, w')
      | (Inr _, t, w') \<Rightarrow> (Inr t, w'))"

text \<open>
  \<^verbatim>\<open>__getattr__(self, name)\<close> returns \<^verbatim>\<open>getattr(self._cursor, name)\<close>: the named
  attribute of the cursor itself. Looking an attribute up on \<^verbatim>\<open>None\<close> raises.
\<close>

definition Transaction_getattr :: "transaction \<Rightarrow> string \<Rightarrow> exn + (cursor \<times> string)" where
  "Transaction_getattr t name =
     (case t_cursor t of
        None \<Rightarrow> Inl (AttributeError name)
      | Some c \<Rightarrow> Inr (c, name))"

text \<open>Calling an attribute obtained from the handle is a call on the cursor it came from.\<close>

definition call_attr ::
  "driver \<Rightarrow> transaction \<Rightarrow> string \<Rightarrow> pyval list \<Rightarrow> kwargs \<Rightarrow> world \<Rightarrow> (exn + pyval) \<times> world" where
  "call_attr D t name args kw w =
     (case Transaction_getattr t name of
        Inl e \<Rightarrow> (Inl e, w)
      | Inr (c, n) \<Rightarrow> invoke D (CursorCall c n args kw) w)"

subsection \<open>class ConnectionPool\<close>

text \<open>
  The attributes of a pool. \<^verbatim>\<open>connections\<close> is the dictionary "hashed on thread id";
  it is kept as a list of pairs with distinct keys, because \<^verbatim>\<open>finalClose\<close> walks its
  values. \<^verbatim>\<open>shutdownID\<close> is assigned by \<^verbatim>\<open>start()\<close> and \<^verbatim>\<open>close()\<close> only and has no
  class-level default: \<open>None\<close> is the attribute not being there, \<open>Some None\<close> is the
  attribute holding Python's \<^verbatim>\<open>None\<close>. The fields \<open>pool_min\<close> and \<open>pool_max\<close> are the
  attributes \<^verbatim>\<open>min\<close> and \<^verbatim>\<open>max\<close>.
\<close>

record dbapi_module =
  apilevel :: "string option"      \<comment> \<open>\<^verbatim>\<open>getattr(dbapi, 'apilevel', None)\<close>\<close>
  threadsafety :: "int option"     \<comment> \<open>\<open>None\<close>: the module has no such attribute\<close>

record pool =
  dbapiName :: string
  dbapi :: dbapi_module
  noisy :: bool
  pool_min :: int
  pool_max :: int
  running :: bool
  openfun :: "hook option"
  connargs :: "pyval list"
  connkw :: kwargs
  connections :: "(tid \<times> conn) list"
  threadpool :: threadpool
  startID :: "trigger option"
  shutdownID :: "trigger option option"

text \<open>
  The keyword arguments of the constructor: the four \<^verbatim>\<open>cp_\<close> options (\<open>None\<close> when the
  key is not passed) and every other keyword, which is meant for the driver.
\<close>

record pool_kw =
  cp_min :: "int option"
  cp_max :: "int option"
  cp_noisy :: "bool option"
  cp_openfun :: "hook option"
  driver_kw :: kwargs

definition cp_keys :: "string set" where
  "cp_keys = {''cp_min'', ''cp_max'', ''cp_noisy'', ''cp_openfun''}"

text \<open>
  \<^verbatim>\<open>__init__\<close>. \<open>m\<close> is the module \<^verbatim>\<open>reflect.namedModule(dbapiName)\<close> resolved to. The
  class attributes give the defaults \<^verbatim>\<open>noisy = 1\<close>, \<^verbatim>\<open>min = 3\<close>, \<^verbatim>\<open>max = 5\<close>,
  \<^verbatim>\<open>running = 0\<close>, \<^verbatim>\<open>openfun = None\<close>. \<^verbatim>\<open>self.connkw\<close> is the very dictionary the
  \<^verbatim>\<open>del\<close> statements shrink, so it ends without the \<^verbatim>\<open>cp_\<close> keys. The last
  statement registers \<^verbatim>\<open>self.start\<close> for the reactor's startup and keeps the trigger
  in \<^verbatim>\<open>startID\<close>; \<^verbatim>\<open>shutdownID\<close> is not assigned.
\<close>

definition ConnectionPool_init ::
  "dbapi_module \<Rightarrow> string \<Rightarrow> pyval list \<Rightarrow> pool_kw \<Rightarrow> world \<Rightarrow> pool \<times> world" where
  "ConnectionPool_init m name args kw w =
     (let w1 = (if apilevel m \<noteq> Some ''2.0'' then log_msg NotCompliant w else w);
          w2 = (if (case threadsafety m of None \<Rightarrow> 0 | Some n \<Rightarrow> n) < 1
                then log_msg NotThreadSafe w1 else w1);
          min0 = (case cp_min kw of Some n \<Rightarrow> n | None \<Rightarrow> 3);
          max0 = (case cp_max kw of Some n \<Rightarrow> n | None \<Rightarrow> 5);
          noisy0 = (case cp_noisy kw of Some b \<Rightarrow> b | None \<Rightarrow> True);
          min1 = min min0 max0;
          max1 = max min1 max0;
          (g, w3) = addTrigger w2
      in (\<lparr>dbapiName = name, dbapi = m, noisy = noisy0,
           pool_min = min1, pool_max = max1, running = False,
           openfun = cp_openfun kw, connargs = args,
           connkw = driver_kw kw |` (- cp_keys),
           connections = [], threadpool = ThreadPool min1 max1,
           startID = Some g, shutdownID = None\<rparr>, w3))"

definition start :: "pool \<Rightarrow> world \<Rightarrow> pool \<times> world" where
  "start p w =
     (if \<not> running p then
        (let (g, w') = addTrigger w
         in (p\<lparr>threadpool := threadpool_start (threadpool p),
               shutdownID := Some (Some g), running := True\<rparr>, w'))
      else (p, w))"

definition connect :: "driver \<Rightarrow> tid \<Rightarrow> pool \<Rightarrow> world \<Rightarrow> (exn + conn) \<times> pool \<times> world" where
  "connect D tid p w =
     (case map_of (connections p) tid of
        Some c \<Rightarrow> (Inr c, p, w)
      | None \<Rightarrow>
          (let w1 = (if noisy p then log_msg (Connecting (dbapiName p)) w else w)
           in case create D (DbConnect (connargs p) (connkw p)) w1 of
                (Inl e, w2) \<Rightarrow> (Inl e, p, w2)
              | (Inr c, w2) \<Rightarrow>
                  (let (r, w3) = (case openfun p of
                                    Some h \<Rightarrow> invoke D (Openfun h c) w2
                                  | None \<Rightarrow> (Inr PyNone, w2))
                   in case r of
                        Inl e \<Rightarrow> (Inl e, p, w3)
                      | Inr _ \<Rightarrow>
                          (Inr c, p\<lparr>connections := AList.update tid c (connections p)\<rparr>, w3))))"

definition p_close :: "driver \<Rightarrow> pool \<Rightarrow> conn \<Rightarrow> world \<Rightarrow> (exn + pyval) \<times> world" where
  "p_close D p c w =
     invoke D (ConnClose c) (if noisy p then log_msg (Closing (dbapiName p)) w else w)"

text \<open>
  \<^verbatim>\<open>disconnect(conn)\<close>: the argument may be \<^verbatim>\<open>None\<close>, which the second test is there
  for; \<^verbatim>\<open>self.connections.get(tid)\<close> is \<^verbatim>\<open>None\<close> when the thread has no entry.
\<close>

definition disconnect ::
  "driver \<Rightarrow> tid \<Rightarrow> conn option \<Rightarrow> pool \<Rightarrow> world \<Rightarrow> (exn + unit) \<times> pool \<times> world" where
  "disconnect D tid c p w =
     (if c \<noteq> map_of (connections p) tid then
        (Inl (Exception ''wrong connection for thread''), p, w)
      else case c of
             None \<Rightarrow> (Inr (), p, w)
           | Some c' \<Rightarrow>
               (case p_close D p c' w of
                  (Inl e, w') \<Rightarrow> (Inl e, p, w')
                | (Inr _, w') \<Rightarrow>
                    (Inr (), p\<lparr>connections := AList.delete tid (connections p)\<rparr>, w')))"

text \<open>The loop of \<^verbatim>\<open>finalClose\<close>: an exception from a \<^verbatim>\<open>close()\<close> ends it.\<close>

fun close_each :: "driver \<Rightarrow> pool \<Rightarrow> conn list \<Rightarrow> world \<Rightarrow> (exn + unit) \<times> world" where
  "close_each D p [] w = (Inr (), w)"
| "close_each D p (c # cs) w =
     (case p_close D p c w of
        (Inl e, w') \<Rightarrow> (Inl e, w')
      | (Inr _, w') \<Rightarrow> close_each D p cs w')"

definition finalClose :: "driver \<Rightarrow> pool \<Rightarrow> world \<Rightarrow> (exn + unit) \<times> pool \<times> world" where
  "finalClose D p w =
     (let p1 = p\<lparr>threadpool := threadpool_stop (threadpool p), running := False\<rparr>
      in case close_each D p1 (map snd (connections p1)) w of
           (Inl e, w') \<Rightarrow> (Inl e, p1, w')
         | (Inr _, w') \<Rightarrow> (Inr (), p1\<lparr>connections := []\<rparr>, w'))"

text \<open>
  \<^verbatim>\<open>close()\<close> reads \<^verbatim>\<open>self.shutdownID\<close> first; reading an attribute the instance does
  not have raises \<^verbatim>\<open>AttributeError\<close>. A trigger identity is a true value, \<^verbatim>\<open>None\<close> a
  false one.
\<close>

definition close :: "driver \<Rightarrow> pool \<Rightarrow> world \<Rightarrow> (exn + unit) \<times> pool \<times> world" where
  "close D p w =
     (case shutdownID p of
        None \<Rightarrow> (Inl (AttributeError ''shutdownID''), p, w)
      | Some sid \<Rightarrow>
          (let (p1, w1) = (case sid of
                             Some g \<Rightarrow> (p\<lparr>shutdownID := Some None\<rparr>, removeSystemEventTrigger g w)
                           | None \<Rightarrow> (p, w));
               (p2, w2) = (case startID p1 of
                             Some g \<Rightarrow> (p1\<lparr>startID := None\<rparr>, removeSystemEventTrigger g w1)
                           | None \<Rightarrow> (p1, w1))
           in finalClose D p2 w2))"

subsection \<open>Units of work\<close>

text \<open>
  The handler \<^verbatim>\<open>except: conn.rollback(); raise\<close>: the bare \<^verbatim>\<open>raise\<close> is reached
  only when \<^verbatim>\<open>rollback()\<close> returns; an exception from \<^verbatim>\<open>rollback()\<close> itself is the
  one that leaves the handler.
\<close>

definition rollback_raise :: "driver \<Rightarrow> conn \<Rightarrow> exn \<Rightarrow> world \<Rightarrow> exn \<times> world" where
  "rollback_raise D c e w =
     (case invoke D (ConnRollback c) w of
        (Inl e', w') \<Rightarrow> (e', w')
      | (Inr _, w') \<Rightarrow> (e, w'))"

definition p_runQuery ::
  "driver \<Rightarrow> pyval list \<Rightarrow> kwargs \<Rightarrow> tid \<Rightarrow> pool \<Rightarrow> world \<Rightarrow> (exn + pyval) \<times> pool \<times> world" where
  "p_runQuery D args kw tid p w =
     (case connect D tid p w of
        (Inl e, p1, w1) \<Rightarrow> (Inl e, p1, w1)
      | (Inr c, p1, w1) \<Rightarrow>
          (case create D (ConnCursor c) w1 of
             (Inl e, w2) \<Rightarrow> (Inl e, p1, w2)
           | (Inr curs, w2) \<Rightarrow>
               (case invoke D (CursorCall curs ''execute'' args kw) w2 of
                  (Inl e, w3) \<Rightarrow> (case rollback_raise D c e w3 of (e', w') \<Rightarrow> (Inl e', p1, w'))
                | (Inr _, w3) \<Rightarrow>
                    (case invoke D (CursorCall curs ''fetchall'' [] Map.empty) w3 of
                       (Inl e, w4) \<Rightarrow>
                         (case rollback_raise D c e w4 of (e', w') \<Rightarrow> (Inl e', p1, w'))
                     | (Inr result, w4) \<Rightarrow>
                         (case invoke D (CursorCall curs ''close'' [] Map.empty) w4 of
                            (Inl e, w5) \<Rightarrow>
                              (case rollback_raise D c e w5 of (e', w') \<Rightarrow> (Inl e', p1, w'))
                          | (Inr _, w5) \<Rightarrow>
                              (case invoke D (ConnCommit c) w5 of
                                 (Inl e, w6) \<Rightarrow>
                                   (case rollback_raise D c e w6 of
                                      (e', w') \<Rightarrow> (Inl e', p1, w'))
                               | (Inr _, w6) \<Rightarrow> (Inr result, p1, w6)))))))"

definition p_runOperation ::
  "driver \<Rightarrow> pyval list \<Rightarrow> kwargs \<Rightarrow> tid \<Rightarrow> pool \<Rightarrow> world \<Rightarrow> (exn + pyval) \<times> pool \<times> world" where
  "p_runOperation D args kw tid p w =
     (case connect D tid p w of
        (Inl e, p1, w1) \<Rightarrow> (Inl e, p1, w1)
      | (Inr c, p1, w1) \<Rightarrow>
          (case create D (ConnCursor c) w1 of
             (Inl e, w2) \<Rightarrow> (Inl e, p1, w2)
           | (Inr curs, w2) \<Rightarrow>
               (case invoke D (CursorCall curs ''execute'' args kw) w2 of
                  (Inl e, w3) \<Rightarrow> (case rollback_raise D c e w3 of (e', w') \<Rightarrow> (Inl e', p1, w'))
                | (Inr _, w3) \<Rightarrow>
                    (case invoke D (CursorCall curs ''close'' [] Map.empty) w3 of
                       (Inl e, w4) \<Rightarrow>
                         (case rollback_raise D c e w4 of (e', w') \<Rightarrow> (Inl e', p1, w'))
                     | (Inr _, w4) \<Rightarrow>
                         (case invoke D (ConnCommit c) w4 of
                            (Inl e, w5) \<Rightarrow>
                              (case rollback_raise D c e w5 of (e', w') \<Rightarrow> (Inl e', p1, w'))
                          | (Inr _, w5) \<Rightarrow> (Inr PyNone, p1, w5))))))"

text \<open>
  The user's interaction is a callable that is handed the transaction handle. What it can
  do with the handle is call a cursor attribute through it (\<^verbatim>\<open>trans.execute(...)\<close>,
  \<^verbatim>\<open>trans.fetchone()\<close>, \<^verbatim>\<open>trans.close()\<close>, ...), call \<^verbatim>\<open>trans.reopen()\<close>, and in the
  end return a value or raise; it sees whether each call returned or raised and goes on
  from there.
\<close>

datatype interaction =
    IReturn pyval
  | IRaise exn
  | ICall string "pyval list" kwargs "exn + pyval \<Rightarrow> interaction"
  | IReopen "exn + unit \<Rightarrow> interaction"

primrec interact ::
  "interaction \<Rightarrow> driver \<Rightarrow> transaction \<Rightarrow> world \<Rightarrow> (exn + pyval) \<times> transaction \<times> world" where
  "interact (IReturn v) D t w = (Inr v, t, w)"
| "interact (IRaise e) D t w = (Inl e, t, w)"
| "interact (ICall name args kw k) D t w =
     (case call_attr D t name args kw w of (r, w') \<Rightarrow> interact (k r) D t w')"
| "interact (IReopen k) D t w =
     (case reopen D t w of (r, t', w') \<Rightarrow> interact (k r) D t' w')"

definition p_runInteraction ::
  "driver \<Rightarrow> interaction \<Rightarrow> tid \<Rightarrow> pool \<Rightarrow> world \<Rightarrow> (exn + pyval) \<times> pool \<times> world" where
  "p_runInteraction D f tid p w =
     (case connect D tid p w of
        (Inl e, p1, w1) \<Rightarrow> (Inl e, p1, w1)
      | (Inr c, p1, w1) \<Rightarrow>
          (case Transaction_init D c w1 of
             (Inl e, w2) \<Rightarrow> (Inl e, p1, w2)
           | (Inr tr, w2) \<Rightarrow>
               (case interact f D tr w2 of
                  (Inl e, tr', w3) \<Rightarrow>
                    (case rollback_raise D (t_connection tr') e w3 of
                       (e', w') \<Rightarrow> (Inl e', p1, w'))
                | (Inr result, tr', w3) \<Rightarrow>
                    (case call_attr D tr' ''close'' [] Map.empty w3 of
                       (Inl e, w4) \<Rightarrow>
                         (case rollback_raise D (t_connection tr') e w4 of
                            (e', w') \<Rightarrow> (Inl e', p1, w'))
                     | (Inr _, w4) \<Rightarrow>
                         (case invoke D (ConnCommit (t_connection tr')) w4 of
                            (Inl e, w5) \<Rightarrow>
                              (case rollback_raise D (t_connection tr') e w5 of
                                 (e', w') \<Rightarrow> (Inl e', p1, w'))
                          | (Inr _, w5) \<Rightarrow> (Inr result, p1, w5))))))"

text \<open>
  Modelled from the spec: \<^verbatim>\<open>threads._putResultInDeferred\<close> and
  \<^verbatim>\<open>ThreadPool.callInThread\<close> are not in the given source. By the spec the unit of work
  runs on one worker thread and the future is resolved exactly once, with the function's
  return value or with the failure it raised. \<open>tid\<close> is the worker the executor picked.
\<close>

datatype deferred = Callback pyval | Errback exn

definition p_deferToThread ::
  "(tid \<Rightarrow> pool \<Rightarrow> world \<Rightarrow> (exn + pyval) \<times> pool \<times> world) \<Rightarrow>
   tid \<Rightarrow> pool \<Rightarrow> world \<Rightarrow> deferred \<times> pool \<times> world" where
  "p_deferToThread f tid p w =
     (case f tid p w of
        (Inl e, p', w') \<Rightarrow> (Errback e, p', w')
      | (Inr v, p', w') \<Rightarrow> (Callback v, p', w'))"

definition runQuery ::
  "driver \<Rightarrow> pyval list \<Rightarrow> kwargs \<Rightarrow> tid \<Rightarrow> pool \<Rightarrow> world \<Rightarrow> deferred \<times> pool \<times> world" where
  "runQuery D args kw = p_deferToThread (p_runQuery D args kw)"

definition runOperation ::
  "driver \<Rightarrow> pyval list \<Rightarrow> kwargs \<Rightarrow> tid \<Rightarrow> pool \<Rightarrow> world \<Rightarrow> deferred \<times> pool \<times> world" where
  "runOperation D args kw = p_deferToThread (p_runOperation D args kw)"

definition runInteraction ::
  "driver \<Rightarrow> interaction \<Rightarrow> tid \<Rightarrow> pool \<Rightarrow> world \<Rightarrow> deferred \<times> pool \<times> world" where
  "runInteraction D f = p_deferToThread (p_runInteraction D f)"

subsection \<open>Reading the trace\<close>

text \<open>
  What a piece of the trace says was invoked: the connections \<^verbatim>\<open>commit()\<close>,
  \<^verbatim>\<open>rollback()\<close> and \<^verbatim>\<open>close()\<close> were called on, in order and with repetitions,
  whether or not the call raised; the cursors \<^verbatim>\<open>close()\<close> was called on; the row
  sets \<^verbatim>\<open>fetchall()\<close> returned; and what was raised: by a cursor method (with the
  method's name), by \<^verbatim>\<open>rollback()\<close>, by any call.
\<close>

definition commits :: "event list \<Rightarrow> conn list" where
  "commits evs = concat (map (\<lambda>ev. case fst ev of ConnCommit c \<Rightarrow> [c] | _ \<Rightarrow> []) evs)"

definition rollbacks :: "event list \<Rightarrow> conn list" where
  "rollbacks evs = concat (map (\<lambda>ev. case fst ev of ConnRollback c \<Rightarrow> [c] | _ \<Rightarrow> []) evs)"

definition conn_closes :: "event list \<Rightarrow> conn list" where
  "conn_closes evs = concat (map (\<lambda>ev. case fst ev of ConnClose c \<Rightarrow> [c] | _ \<Rightarrow> []) evs)"

definition cursor_closes :: "event list \<Rightarrow> cursor list" where
  "cursor_closes evs =
     concat (map (\<lambda>ev. case fst ev of
                          CursorCall c n _ _ \<Rightarrow> if n = ''close'' then [c] else []
                        | _ \<Rightarrow> []) evs)"

definition fetched :: "event list \<Rightarrow> pyval list" where
  "fetched evs =
     concat (map (\<lambda>ev. case ev of
                          (CursorCall c n _ _, Returned v) \<Rightarrow> if n = ''fetchall'' then [v] else []
                        | _ \<Rightarrow> []) evs)"

text \<open>The events an operation added: those of the later world beyond the earlier one's.\<close>

definition new_events :: "world \<Rightarrow> world \<Rightarrow> event list" where
  "new_events w w' = drop (length (trace w)) (trace w')"

definition cursor_failures :: "event list \<Rightarrow> (string \<times> exn) list" where
  "cursor_failures evs =
     concat (map (\<lambda>ev. case ev of (CursorCall c n _ _, Raised e) \<Rightarrow> [(n, e)] | _ \<Rightarrow> []) evs)"

definition rollback_failures :: "event list \<Rightarrow> exn list" where
  "rollback_failures evs =
     concat (map (\<lambda>ev. case ev of (ConnRollback c, Raised e) \<Rightarrow> [e] | _ \<Rightarrow> []) evs)"

definition failures :: "event list \<Rightarrow> exn list" where
  "failures evs = concat (map (\<lambda>ev. case snd ev of Raised e \<Rightarrow> [e] | _ \<Rightarrow> []) evs)"

subsection \<open>A concrete driver, world and pool\<close>

text \<open>
  A driver on which nothing raises and whose \<^verbatim>\<open>fetchall()\<close> returns the one row
  \<^verbatim>\<open>[(1,)]\<close>; variations of it raise in chosen calls. The pool is the one
  \<^verbatim>\<open>ConnectionPool("db", "test.db", cp_min=1, cp_max=1)\<close> builds.
\<close>

definition rows1 :: pyval where
  "rows1 = PyList [PyList [PyInt 1]]"

definition returns1 :: "event list \<Rightarrow> call \<Rightarrow> pyval" where
  "returns1 evs c =
     (case c of
        CursorCall _ n _ _ \<Rightarrow> if n = ''fetchall'' then rows1 else PyNone
      | _ \<Rightarrow> PyNone)"

definition ok_driver :: driver where
  "ok_driver = \<lparr>raises = (\<lambda>evs c. None), returns = returns1\<rparr>"

definition world0 :: world where
  "world0 = \<lparr>trace = [], next_id = 0, logged = [], triggers = [], next_trigger = 0\<rparr>"

definition module1 :: dbapi_module where
  "module1 = \<lparr>apilevel = Some ''2.0'', threadsafety = Some 1\<rparr>"

definition kw1 :: pool_kw where
  "kw1 = \<lparr>cp_min = Some 1, cp_max = Some 1, cp_noisy = None, cp_openfun = None,
          driver_kw = Map.empty\<rparr>"

definition pool1 :: pool where
  "pool1 = fst (ConnectionPool_init module1 ''db'' [PyStr ''test.db''] kw1 world0)"

definition world1 :: world where
  "world1 = snd (ConnectionPool_init module1 ''db'' [PyStr ''test.db''] kw1 world0)"

definition select1 :: "pyval list" where
  "select1 = [PyStr ''SELECT 1'']"

text \<open>An interaction that executes a statement, fetches one row and returns it.\<close>

definition fetch_one :: interaction where
  "fetch_one =
     ICall ''execute'' select1 Map.empty (\<lambda>r.
       case r of
         Inl e \<Rightarrow> IRaise e
       | Inr _ \<Rightarrow> ICall ''fetchone'' [] Map.empty (\<lambda>r.
           case r of Inl e \<Rightarrow> IRaise e | Inr v \<Rightarrow> IReturn v))"

text \<open>
  Drivers on which one call raises: the cursor's \<^verbatim>\<open>execute\<close>, respectively its
  \<^verbatim>\<open>fetchall\<close>; and an interaction that raises without touching the handle.
\<close>

definition execute_fails :: driver where
  "execute_fails =
     \<lparr>raises = (\<lambda>evs c. case c of
                   CursorCall _ n _ _ \<Rightarrow>
                     if n = ''execute'' then Some (DbError ''syntax error'') else None
                 | _ \<Rightarrow> None),
      returns = returns1\<rparr>"

definition fetchall_fails :: driver where
  "fetchall_fails =
     \<lparr>raises = (\<lambda>evs c. case c of
                   CursorCall _ n _ _ \<Rightarrow>
                     if n = ''fetchall'' then Some (DbError ''connection lost'') else None
                 | _ \<Rightarrow> None),
      returns = returns1\<rparr>"

definition raise_ValueError :: interaction where
  "raise_ValueError = IRaise (DbError ''ValueError'')"

text \<open>A driver whose \<^verbatim>\<open>connect\<close> raises, and the pool with a \<^verbatim>\<open>cp_openfun\<close> hook.\<close>

definition connect_fails :: driver where
  "connect_fails =
     \<lparr>raises = (\<lambda>evs c. case c of
                   DbConnect _ _ \<Rightarrow> Some (DbError ''connection refused'')
                 | _ \<Rightarrow> None),
      returns = returns1\<rparr>"

definition pool1_hook :: pool where
  "pool1_hook =
     fst (ConnectionPool_init module1 ''db'' [PyStr ''test.db''] (kw1\<lparr>cp_openfun := Some 3\<rparr>)
            world0)"

text \<open>The pool and the world after thread 7, and then thread 8, have connected.\<close>

definition pool2 :: pool where
  "pool2 = fst (snd (connect ok_driver 7 pool1 world1))"

definition world2 :: world where
  "world2 = snd (snd (connect ok_driver 7 pool1 world1))"

definition pool3 :: pool where
  "pool3 = fst (snd (connect ok_driver 8 pool2 world2))"

definition world3 :: world where
  "world3 = snd (snd (connect ok_driver 8 pool2 world2))"

subsection \<open>Worker threads calling \<^verbatim>\<open>connect()\<close> and \<^verbatim>\<open>disconnect()\<close> in turn\<close>

text \<open>
  A schedule is the sequence in which worker threads call \<^verbatim>\<open>connect()\<close> and
  \<^verbatim>\<open>disconnect(conn)\<close> on one pool; running it collects, in order, the thread
  identity and the connection of every \<^verbatim>\<open>connect()\<close> that returned.
\<close>

datatype op = Connect tid | Disconnect tid "conn option"

fun run_ops :: "driver \<Rightarrow> op list \<Rightarrow> pool \<Rightarrow> world \<Rightarrow> (tid \<times> conn) list \<times> pool \<times> world" where
  "run_ops D [] p w = ([], p, w)"
| "run_ops D (Connect t # ops) p w =
     (case connect D t p w of
        (r, p1, w1) \<Rightarrow>
          (case run_ops D ops p1 w1 of
             (rets, p', w') \<Rightarrow> ((case r of Inr c \<Rightarrow> [(t, c)] | Inl e \<Rightarrow> []) @ rets, p', w')))"
| "run_ops D (Disconnect t c # ops) p w =
     (case disconnect D t c p w of (r, p1, w1) \<Rightarrow> run_ops D ops p1 w1)"

text \<open>
  A registry in good order: one entry per thread identity, no connection under two
  identities, and every registered connection an object that exists already.
\<close>

definition registry_ok :: "pool \<Rightarrow> world \<Rightarrow> bool" where
  "registry_ok p w \<longleftrightarrow>
     distinct (map fst (connections p)) \<and> distinct (map snd (connections p))
     \<and> list_all (\<lambda>c. c < next_id w) (map snd (connections p))"

definition schedule1 :: "op list" where
  "schedule1 = [Connect 7, Connect 8, Connect 7, Disconnect 8 (Some 1), Connect 8]"

definition schedule2 :: "op list" where
  "schedule2 = [Connect 8, Disconnect 8 (Some 1), Connect 7, Connect 8]"

text \<open>Keyword arguments with the bounds reversed, and with a minimum of zero.\<close>

definition kw_reversed :: pool_kw where
  "kw_reversed = kw1\<lparr>cp_min := Some 5, cp_max := Some 2\<rparr>"

definition kw_zero :: pool_kw where
  "kw_zero = kw1\<lparr>cp_min := Some 0, cp_max := Some 5\<rparr>"

subsection \<open>Closed cursors\<close>

text \<open>
  The cursors whose \<^verbatim>\<open>close()\<close> has returned, as the trace records them; and the worlds
  in which each of them is an object created earlier.
\<close>

definition closed_cursors :: "event list \<Rightarrow> cursor list" where
  "closed_cursors evs =
     concat (map (\<lambda>ev. case ev of
                          (CursorCall c n _ _, Returned v) \<Rightarrow> if n = ''close'' then [c] else []
                        | _ \<Rightarrow> []) evs)"

definition cursors_exist :: "world \<Rightarrow> bool" where
  "cursors_exist w \<longleftrightarrow> list_all (\<lambda>c. c < next_id w) (closed_cursors (trace w))"

text \<open>
  The handle \<^verbatim>\<open>Transaction(pool, conn)\<close> of thread 7's connection, and an interaction
  that calls \<^verbatim>\<open>trans.close()\<close> and then \<^verbatim>\<open>trans.execute("SELECT 1")\<close>.
\<close>

definition handle1 :: transaction where
  "handle1 = \<lparr>t_connection = 0, t_cursor = Some 1\<rparr>"

definition world_h :: world where
  "world_h = snd (Transaction_init ok_driver 0 world2)"

definition close_then_execute :: interaction where
  "close_then_execute =
     ICall ''close'' [] Map.empty (\<lambda>r.
       ICall ''execute'' select1 Map.empty (\<lambda>r.
         case r of Inl e \<Rightarrow> IRaise e | Inr v \<Rightarrow> IReturn v))"

text \<open>The pool of thread 7 and thread 8 after \<^verbatim>\<open>start()\<close>.\<close>

definition pool_started :: pool where
  "pool_started = fst (start pool3 world3)"

definition world_started :: world where
  "world_started = snd (start pool3 world3)"

text \<open>
  Drivers on which a call of the cleanup raises too: \<^verbatim>\<open>execute\<close> and then
  \<^verbatim>\<open>rollback\<close>; \<^verbatim>\<open>commit\<close>; the \<^verbatim>\<open>cp_openfun\<close> hook. And an interaction that
  returns 5 at once.
\<close>

definition execute_rollback_fail :: driver where
  "execute_rollback_fail =
     \<lparr>raises = (\<lambda>evs c. case c of
                   CursorCall _ n _ _ \<Rightarrow>
                     if n = ''execute'' then Some (DbError ''syntax error'') else None
                 | ConnRollback _ \<Rightarrow> Some (DbError ''connection lost'')
                 | _ \<Rightarrow> None),
      returns = returns1\<rparr>"

definition commit_fails :: driver where
  "commit_fails =
     \<lparr>raises = (\<lambda>evs c. case c of
                   ConnCommit _ \<Rightarrow> Some (DbError ''disk full'')
                 | _ \<Rightarrow> None),
      returns = returns1\<rparr>"

definition hook_fails :: driver where
  "hook_fails =
     \<lparr>raises = (\<lambda>evs c. case c of
                   Openfun _ _ \<Rightarrow> Some (DbError ''unknown charset'')
                 | _ \<Rightarrow> None),
      returns = returns1\<rparr>"

definition return_five :: interaction where
  "return_five = IReturn (PyInt 5)"

section \<open>Properties\<close>

subsection \<open>The collaborators only ever extend the trace\<close>

lemma invoke_trace:
  "invoke D c w = (r, w') \<Longrightarrow>
     w' = w\<lparr>trace := trace w @ [(c, case r of Inl e \<Rightarrow> Raised e | Inr v \<Rightarrow> Returned v)]\<rparr>"
  by (auto simp: invoke_def Let_def split: option.splits)

lemma create_trace:
  "create D c w = (r, w') \<Longrightarrow>
     (case r of
        Inl e \<Rightarrow> w' = w\<lparr>trace := trace w @ [(c, Raised e)]\<rparr>
      | Inr n \<Rightarrow> n = next_id w \<and>
                 w' = w\<lparr>trace := trace w @ [(c, Created n)], next_id := Suc n\<rparr>)"
  by (auto simp: create_def split: option.splits)

subsection \<open>Unfolding the model on concrete inputs\<close>

lemmas model_defs = runQuery_def runOperation_def runInteraction_def p_deferToThread_def
  p_runQuery_def p_runOperation_def p_runInteraction_def connect_def create_def invoke_def
  rollback_raise_def Transaction_init_def reopen_def call_attr_def Transaction_getattr_def
  log_msg_def Let_def

lemmas demo_defs = pool1_def world1_def world0_def kw1_def module1_def ok_driver_def
  returns1_def select1_def ConnectionPool_init_def addTrigger_def ThreadPool_def

subsection \<open>Rules for reading a trace\<close>

lemma commits_simps:
  "commits [] = []" "commits (evs @ evs') = commits evs @ commits evs'"
  "commits ((c, out) # evs) = (case c of ConnCommit x \<Rightarrow> [x] | _ \<Rightarrow> []) @ commits evs"
  by (simp_all add: commits_def)

lemma rollbacks_simps:
  "rollbacks [] = []" "rollbacks (evs @ evs') = rollbacks evs @ rollbacks evs'"
  "rollbacks ((c, out) # evs) = (case c of ConnRollback x \<Rightarrow> [x] | _ \<Rightarrow> []) @ rollbacks evs"
  by (simp_all add: rollbacks_def)

lemma conn_closes_simps:
  "conn_closes [] = []" "conn_closes (evs @ evs') = conn_closes evs @ conn_closes evs'"
  "conn_closes ((c, out) # evs) = (case c of ConnClose x \<Rightarrow> [x] | _ \<Rightarrow> []) @ conn_closes evs"
  by (simp_all add: conn_closes_def)

lemma cursor_closes_simps:
  "cursor_closes [] = []" "cursor_closes (evs @ evs') = cursor_closes evs @ cursor_closes evs'"
  "cursor_closes ((c, out) # evs) =
     (case c of CursorCall x n _ _ \<Rightarrow> if n = ''close'' then [x] else [] | _ \<Rightarrow> [])
     @ cursor_closes evs"
  by (simp_all add: cursor_closes_def)

lemma fetched_simps:
  "fetched [] = []" "fetched (evs @ evs') = fetched evs @ fetched evs'"
  "fetched ((c, out) # evs) =
     (case (c, out) of
        (CursorCall x n _ _, Returned v) \<Rightarrow> if n = ''fetchall'' then [v] else []
      | _ \<Rightarrow> []) @ fetched evs"
  by (simp_all add: fetched_def)

lemma rollback_failures_simps:
  "rollback_failures [] = []"
  "rollback_failures (evs @ evs') = rollback_failures evs @ rollback_failures evs'"
  "rollback_failures ((c, out) # evs) =
     (case (c, out) of (ConnRollback x, Raised e) \<Rightarrow> [e] | _ \<Rightarrow> []) @ rollback_failures evs"
  by (simp_all add: rollback_failures_def)

lemma cursor_failures_simps:
  "cursor_failures [] = []"
  "cursor_failures (evs @ evs') = cursor_failures evs @ cursor_failures evs'"
  "cursor_failures ((c, out) # evs) =
     (case (c, out) of (CursorCall x n _ _, Raised e) \<Rightarrow> [(n, e)] | _ \<Rightarrow> [])
     @ cursor_failures evs"
  by (simp_all add: cursor_failures_def)

lemma failures_simps:
  "failures [] = []" "failures (evs @ evs') = failures evs @ failures evs'"
  "failures ((c, out) # evs) = (case out of Raised e \<Rightarrow> [e] | _ \<Rightarrow> []) @ failures evs"
  by (simp_all add: failures_def)

lemmas reads = commits_simps rollbacks_simps conn_closes_simps cursor_closes_simps
  fetched_simps rollback_failures_simps failures_simps cursor_failures_simps

lemma new_events_append: "trace w' = trace w @ evs \<Longrightarrow> new_events w w' = evs"
  by (simp add: new_events_def)

lemma new_events_self: "new_events w w = []"
  by (simp add: new_events_def)

subsection \<open>What each operation adds to the trace\<close>

text \<open>
  \<^verbatim>\<open>connect()\<close> never commits, rolls back, fetches or closes anything; when it returns
  a connection, that connection is the calling thread's registry entry.
\<close>

lemma connect_effect:
  assumes "connect D tid p w = (r, p', w')"
  shows "\<exists>evs. trace w' = trace w @ evs \<and> commits evs = [] \<and> rollbacks evs = []
           \<and> fetched evs = [] \<and> cursor_closes evs = [] \<and> rollback_failures evs = []
           \<and> cursor_failures evs = []
           \<and> (case r of Inr c \<Rightarrow> map_of (connections p') tid = Some c | Inl e \<Rightarrow> p' = p)"
  using assms
  by (auto simp: connect_def Let_def log_msg_def reads update_conv'
      split: option.splits prod.splits sum.splits if_splits dest!: invoke_trace create_trace)

lemma reopen_effect:
  assumes "reopen D t w = (r, t', w')"
  shows "t_connection t' = t_connection t \<and> (t_cursor t \<noteq> None \<longrightarrow> t_cursor t' \<noteq> None) \<and>
         (\<exists>evs. trace w' = trace w @ evs \<and> commits evs = [] \<and> rollbacks evs = []
            \<and> rollback_failures evs = [])"
  using assms
  by (auto simp: reopen_def Let_def reads
      split: option.splits prod.splits sum.splits if_splits dest!: invoke_trace create_trace)

lemma call_attr_effect:
  assumes "call_attr D t n a k w = (r, w')"
  shows "\<exists>evs. trace w' = trace w @ evs \<and> commits evs = [] \<and> rollbacks evs = []
           \<and> rollback_failures evs = []"
  using assms
  by (auto simp: call_attr_def Transaction_getattr_def reads
      split: option.splits prod.splits sum.splits if_splits dest!: invoke_trace)

text \<open>
  Whatever the interaction does through the handle, it reaches the cursor only: it never
  commits or rolls back, and the handle stays bound to the same connection and keeps a
  cursor.
\<close>

lemma interact_effect:
  "interact f D t w = (r, t', w') \<Longrightarrow>
     t_connection t' = t_connection t \<and> (t_cursor t \<noteq> None \<longrightarrow> t_cursor t' \<noteq> None) \<and>
     (\<exists>evs. trace w' = trace w @ evs \<and> commits evs = [] \<and> rollbacks evs = []
        \<and> rollback_failures evs = [])"
proof (induction f arbitrary: t w)
  case (IReturn v)
  then show ?case by (simp add: reads)
next
  case (IRaise e)
  then show ?case by (simp add: reads)
next
  case (ICall n a k cont)
  obtain r1 w1 where c: "call_attr D t n a k w = (r1, w1)"
    by (cases "call_attr D t n a k w")
  with ICall.prems have i: "interact (cont r1) D t w1 = (r, t', w')"
    by simp
  from call_attr_effect[OF c] ICall.IH[OF _ i] show ?case
    by (auto simp: reads)
next
  case (IReopen cont)
  obtain r1 t1 w1 where c: "reopen D t w = (r1, t1, w1)"
    by (cases "reopen D t w")
  with IReopen.prems have i: "interact (cont r1) D t1 w1 = (r, t', w')"
    by simp
  from reopen_effect[OF c] IReopen.IH[OF _ i] show ?case
    by (auto simp: reads)
qed

lemma Transaction_init_effect:
  assumes "Transaction_init D c w = (r, w')"
  shows "(\<exists>evs. trace w' = trace w @ evs \<and> commits evs = [] \<and> rollbacks evs = []
            \<and> rollback_failures evs = [])
         \<and> (case r of Inr t \<Rightarrow> t_connection t = c \<and> t_cursor t \<noteq> None | Inl e \<Rightarrow> True)"
  using assms
  by (auto simp: Transaction_init_def reopen_def Let_def reads
      split: option.splits prod.splits sum.splits if_splits dest!: invoke_trace create_trace)

subsection \<open>Successful units of work\<close>

lemma p_runQuery_success:
  assumes "p_runQuery D args kw tid p w = (Inr v, p', w')"
  shows "\<exists>c. map_of (connections p') tid = Some c \<and> commits (new_events w w') = [c]
            \<and> rollbacks (new_events w w') = [] \<and> fetched (new_events w w') = [v]"
proof -
  obtain r1 p1 w1 where c: "connect D tid p w = (r1, p1, w1)"
    by (cases "connect D tid p w")
  from connect_effect[OF c] obtain evs where
    e: "trace w1 = trace w @ evs" "commits evs = []" "rollbacks evs = []" "fetched evs = []"
    and r: "(case r1 of Inr c \<Rightarrow> map_of (connections p1) tid = Some c | Inl e \<Rightarrow> p1 = p)"
    by blast
  from assms c r e show ?thesis
    by (auto simp: p_runQuery_def rollback_raise_def new_events_def reads
        split: option.splits prod.splits sum.splits if_splits
        dest!: invoke_trace create_trace)
qed

lemma p_runOperation_success:
  assumes "p_runOperation D args kw tid p w = (Inr v, p', w')"
  shows "\<exists>c. map_of (connections p') tid = Some c \<and> commits (new_events w w') = [c]
            \<and> rollbacks (new_events w w') = []"
proof -
  obtain r1 p1 w1 where c: "connect D tid p w = (r1, p1, w1)"
    by (cases "connect D tid p w")
  from connect_effect[OF c] obtain evs where
    e: "trace w1 = trace w @ evs" "commits evs = []" "rollbacks evs = []"
    and r: "(case r1 of Inr c \<Rightarrow> map_of (connections p1) tid = Some c | Inl e \<Rightarrow> p1 = p)"
    by blast
  from assms c r e show ?thesis
    by (auto simp: p_runOperation_def rollback_raise_def new_events_def reads
        split: option.splits prod.splits sum.splits if_splits
        dest!: invoke_trace create_trace)
qed

lemma p_runInteraction_success:
  assumes "p_runInteraction D f tid p w = (Inr v, p', w')"
  shows "\<exists>c. map_of (connections p') tid = Some c \<and> commits (new_events w w') = [c]
            \<and> rollbacks (new_events w w') = []"
proof -
  obtain r1 p1 w1 where c: "connect D tid p w = (r1, p1, w1)"
    by (cases "connect D tid p w")
  from connect_effect[OF c] obtain evs1 where
    e1: "trace w1 = trace w @ evs1" "commits evs1 = []" "rollbacks evs1 = []"
    and r: "(case r1 of Inr c \<Rightarrow> map_of (connections p1) tid = Some c | Inl e \<Rightarrow> p1 = p)"
    by blast
  from assms c obtain cn where r1: "r1 = Inr cn"
    by (cases r1) (auto simp: p_runInteraction_def)
  obtain r2 w2 where ti: "Transaction_init D cn w1 = (r2, w2)"
    by (cases "Transaction_init D cn w1")
  from assms c r1 ti obtain tr where r2: "r2 = Inr tr"
    by (cases r2) (auto simp: p_runInteraction_def)
  from Transaction_init_effect[OF ti] r2 obtain evs2 where
    e2: "trace w2 = trace w1 @ evs2" "commits evs2 = []" "rollbacks evs2 = []"
    and t: "t_connection tr = cn" "t_cursor tr \<noteq> None"
    by auto
  obtain r3 tr' w3 where it: "interact f D tr w2 = (r3, tr', w3)"
    by (cases "interact f D tr w2")
  from interact_effect[OF it] t obtain evs3 where
    e3: "trace w3 = trace w2 @ evs3" "commits evs3 = []" "rollbacks evs3 = []"
    and t': "t_connection tr' = cn" "t_cursor tr' \<noteq> None"
    by auto
  from assms c r r1 ti r2 it e1 e2 e3 t' show ?thesis
    by (auto simp: p_runInteraction_def rollback_raise_def new_events_def reads
        call_attr_def Transaction_getattr_def
        split: option.splits prod.splits sum.splits if_splits
        dest!: invoke_trace)
qed

text \<open>
  Claim C1. Whenever the future of \<^verbatim>\<open>runQuery\<close>, \<^verbatim>\<open>runOperation\<close> or
  \<^verbatim>\<open>runInteraction\<close> fires with a result, the unit of work invoked \<^verbatim>\<open>commit()\<close>
  exactly once, on the connection registered for the worker thread that ran it, and
  invoked \<^verbatim>\<open>rollback()\<close> on no connection at all; for \<^verbatim>\<open>runQuery\<close> the cursor's
  \<^verbatim>\<open>fetchall()\<close> returned exactly once in the unit of work and the future's result is
  the value it returned.
\<close>

theorem successful_work_commits_once:
  "(runQuery D args kw tid p w = (Callback v, p', w') \<longrightarrow>
      (\<exists>c. map_of (connections p') tid = Some c \<and> commits (new_events w w') = [c]
         \<and> rollbacks (new_events w w') = [] \<and> fetched (new_events w w') = [v]))
   \<and> (runOperation D args kw tid p w = (Callback v, p', w') \<longrightarrow>
      (\<exists>c. map_of (connections p') tid = Some c \<and> commits (new_events w w') = [c]
         \<and> rollbacks (new_events w w') = []))
   \<and> (runInteraction D f tid p w = (Callback v, p', w') \<longrightarrow>
      (\<exists>c. map_of (connections p') tid = Some c \<and> commits (new_events w w') = [c]
         \<and> rollbacks (new_events w w') = []))"
proof (intro conjI impI)
  assume "runQuery D args kw tid p w = (Callback v, p', w')"
  then have "p_runQuery D args kw tid p w = (Inr v, p', w')"
    by (auto simp: runQuery_def p_deferToThread_def split: prod.splits sum.splits)
  then show "\<exists>c. map_of (connections p') tid = Some c \<and> commits (new_events w w') = [c]
         \<and> rollbacks (new_events w w') = [] \<and> fetched (new_events w w') = [v]"
    by (rule p_runQuery_success)
next
  assume "runOperation D args kw tid p w = (Callback v, p', w')"
  then have "p_runOperation D args kw tid p w = (Inr v, p', w')"
    by (auto simp: runOperation_def p_deferToThread_def split: prod.splits sum.splits)
  then show "\<exists>c. map_of (connections p') tid = Some c \<and> commits (new_events w w') = [c]
         \<and> rollbacks (new_events w w') = []"
    by (rule p_runOperation_success)
next
  assume "runInteraction D f tid p w = (Callback v, p', w')"
  then have "p_runInteraction D f tid p w = (Inr v, p', w')"
    by (auto simp: runInteraction_def p_deferToThread_def split: prod.splits sum.splits)
  then show "\<exists>c. map_of (connections p') tid = Some c \<and> commits (new_events w w') = [c]
         \<and> rollbacks (new_events w w') = []"
    by (rule p_runInteraction_success)
qed

theorem successful_work_witness:
  "fst (runQuery ok_driver select1 Map.empty 7 pool1 world1) = Callback rows1
   \<and> commits (new_events world1 (snd (snd (runQuery ok_driver select1 Map.empty 7 pool1 world1)))) = [0]
   \<and> rollbacks (new_events world1 (snd (snd (runQuery ok_driver select1 Map.empty 7 pool1 world1)))) = []
   \<and> fetched (new_events world1 (snd (snd (runQuery ok_driver select1 Map.empty 7 pool1 world1)))) = [rows1]
   \<and> fst (runOperation ok_driver select1 Map.empty 7 pool1 world1) = Callback PyNone
   \<and> commits (new_events world1 (snd (snd (runOperation ok_driver select1 Map.empty 7 pool1 world1)))) = [0]
   \<and> fst (runInteraction ok_driver fetch_one 7 pool1 world1) = Callback PyNone
   \<and> commits (new_events world1 (snd (snd (runInteraction ok_driver fetch_one 7 pool1 world1)))) = [0]"
proof -
  obtain p' w' where q: "runQuery ok_driver select1 Map.empty 7 pool1 world1 = (Callback rows1, p', w')"
    by (simp add: model_defs demo_defs)
  obtain p2 w2 where o: "runOperation ok_driver select1 Map.empty 7 pool1 world1 = (Callback PyNone, p2, w2)"
    by (simp add: model_defs demo_defs)
  obtain p3 w3 where i: "runInteraction ok_driver fetch_one 7 pool1 world1 = (Callback PyNone, p3, w3)"
    by (simp add: model_defs demo_defs fetch_one_def)
  have c: "map_of (connections p') 7 = Some 0" "map_of (connections p2) 7 = Some 0"
    "map_of (connections p3) 7 = Some 0"
    using q o i by (auto simp add: model_defs demo_defs fetch_one_def)
  from successful_work_commits_once[of ok_driver select1 Map.empty 7 pool1 world1 rows1 p' w']
    successful_work_commits_once[of ok_driver select1 Map.empty 7 pool1 world1 PyNone p2 w2]
    successful_work_commits_once[of ok_driver _ _ 7 pool1 world1 PyNone p3 w3 fetch_one]
    q o i c
  show ?thesis by auto
qed

subsection \<open>Failing units of work\<close>

lemma p_runQuery_failure:
  assumes "p_runQuery D args kw tid p w = (r, p', w')"
    and "(n, e) \<in> set (cursor_failures (new_events w w'))"
    and "n = ''execute'' \<or> n = ''fetchall''"
  shows "\<exists>c. map_of (connections p') tid = Some c \<and> rollbacks (new_events w w') = [c]
            \<and> commits (new_events w w') = []
            \<and> (rollback_failures (new_events w w') = [] \<longrightarrow> r = Inl e)
         \<and> (\<forall>e2. rollback_failures (new_events w w') = [e2] \<longrightarrow> r = Inl e2)"
proof -
  obtain r1 p1 w1 where c: "connect D tid p w = (r1, p1, w1)"
    by (cases "connect D tid p w")
  from connect_effect[OF c] obtain evs where
    e: "trace w1 = trace w @ evs" "commits evs = []" "rollbacks evs = []"
       "rollback_failures evs = []" "cursor_failures evs = []"
    and r: "(case r1 of Inr c \<Rightarrow> map_of (connections p1) tid = Some c | Inl e \<Rightarrow> p1 = p)"
    by blast
  from assms c r e show ?thesis
    by (auto simp: p_runQuery_def rollback_raise_def new_events_def reads
        split: option.splits prod.splits sum.splits if_splits
        dest!: invoke_trace create_trace)
qed

lemma p_runOperation_failure:
  assumes "p_runOperation D args kw tid p w = (r, p', w')"
    and "(''execute'', e) \<in> set (cursor_failures (new_events w w'))"
  shows "\<exists>c. map_of (connections p') tid = Some c \<and> rollbacks (new_events w w') = [c]
            \<and> commits (new_events w w') = []
            \<and> (rollback_failures (new_events w w') = [] \<longrightarrow> r = Inl e)
         \<and> (\<forall>e2. rollback_failures (new_events w w') = [e2] \<longrightarrow> r = Inl e2)"
proof -
  obtain r1 p1 w1 where c: "connect D tid p w = (r1, p1, w1)"
    by (cases "connect D tid p w")
  from connect_effect[OF c] obtain evs where
    e: "trace w1 = trace w @ evs" "commits evs = []" "rollbacks evs = []"
       "rollback_failures evs = []" "cursor_failures evs = []"
    and r: "(case r1 of Inr c \<Rightarrow> map_of (connections p1) tid = Some c | Inl e \<Rightarrow> p1 = p)"
    by blast
  from assms c r e show ?thesis
    by (auto simp: p_runOperation_def rollback_raise_def new_events_def reads
        split: option.splits prod.splits sum.splits if_splits
        dest!: invoke_trace create_trace)
qed

lemma p_runInteraction_failure:
  assumes c: "connect D tid p w = (Inr cn, p1, w1)"
    and ti: "Transaction_init D cn w1 = (Inr tr, w2)"
    and it: "interact f D tr w2 = (Inl e, tr', w3)"
    and run: "p_runInteraction D f tid p w = (r, p', w')"
  shows "map_of (connections p') tid = Some cn \<and> rollbacks (new_events w w') = [cn]
           \<and> commits (new_events w w') = []
           \<and> (rollback_failures (new_events w w') = [] \<longrightarrow> r = Inl e)
         \<and> (\<forall>e2. rollback_failures (new_events w w') = [e2] \<longrightarrow> r = Inl e2)"
proof -
  from connect_effect[OF c] obtain evs1 where
    e1: "trace w1 = trace w @ evs1" "commits evs1 = []" "rollbacks evs1 = []"
        "rollback_failures evs1 = []"
    and r: "map_of (connections p1) tid = Some cn"
    by auto
  from Transaction_init_effect[OF ti] obtain evs2 where
    e2: "trace w2 = trace w1 @ evs2" "commits evs2 = []" "rollbacks evs2 = []"
        "rollback_failures evs2 = []"
    and t: "t_connection tr = cn"
    by auto
  from interact_effect[OF it] t obtain evs3 where
    e3: "trace w3 = trace w2 @ evs3" "commits evs3 = []" "rollbacks evs3 = []"
        "rollback_failures evs3 = []"
    and t': "t_connection tr' = cn"
    by auto
  from run c ti it r e1 e2 e3 t' show ?thesis
    by (auto simp: p_runInteraction_def rollback_raise_def new_events_def reads
        split: prod.splits sum.splits dest!: invoke_trace)
qed

text \<open>
  Claim C2, as stated, fails: the handler is \<^verbatim>\<open>except: conn.rollback(); raise\<close>, and
  its \<^verbatim>\<open>raise\<close> is reached only when \<^verbatim>\<open>rollback()\<close> returns. On a driver whose
  \<^verbatim>\<open>execute\<close> raises "syntax error" and whose \<^verbatim>\<open>rollback\<close> then raises "connection
  lost", the future of \<^verbatim>\<open>runQuery\<close> fails with "connection lost", not with the
  failure \<^verbatim>\<open>execute\<close> raised.
\<close>

theorem rollback_raises_counterexample:
  "new_events world1
     (snd (snd (runQuery execute_rollback_fail select1 Map.empty 7 pool1 world1)))
     = [(DbConnect [PyStr ''test.db''] Map.empty, Created 0), (ConnCursor 0, Created 1),
        (CursorCall 1 ''execute'' select1 Map.empty, Raised (DbError ''syntax error'')),
        (ConnRollback 0, Raised (DbError ''connection lost''))]
   \<and> fst (runQuery execute_rollback_fail select1 Map.empty 7 pool1 world1)
     = Errback (DbError ''connection lost'')
   \<and> fst (runQuery execute_rollback_fail select1 Map.empty 7 pool1 world1)
     \<noteq> Errback (DbError ''syntax error'')"
  by (simp_all add: new_events_def pool1_def world1_def world0_def kw1_def module1_def
      select1_def ConnectionPool_init_def addTrigger_def ThreadPool_def)
     (simp_all add: model_defs execute_rollback_fail_def returns1_def)

text \<open>
  Claim C2, amended. In a \<^verbatim>\<open>runQuery\<close> in which the cursor's \<^verbatim>\<open>execute\<close> or
  \<^verbatim>\<open>fetchall\<close> raised \<open>e\<close>, in a \<^verbatim>\<open>runOperation\<close> in which \<^verbatim>\<open>execute\<close> raised
  \<open>e\<close>, and in a \<^verbatim>\<open>runInteraction\<close> whose interaction function raised \<open>e\<close>, the unit
  of work invoked \<^verbatim>\<open>rollback()\<close> exactly once, on the worker's connection, and
  \<^verbatim>\<open>commit()\<close> on no connection. When that \<^verbatim>\<open>rollback()\<close> returned, the future fails
  with the same \<open>e\<close>; when it raised, the future fails with what it raised.
\<close>

theorem failed_work_rolls_back_once:
  "(runQuery D args kw tid p w = (d, p', w') \<longrightarrow>
      (n, e) \<in> set (cursor_failures (new_events w w')) \<longrightarrow>
      n = ''execute'' \<or> n = ''fetchall'' \<longrightarrow>
      (\<exists>c. map_of (connections p') tid = Some c \<and> rollbacks (new_events w w') = [c]
         \<and> commits (new_events w w') = []
         \<and> (rollback_failures (new_events w w') = [] \<longrightarrow> d = Errback e)
         \<and> (\<forall>e2. rollback_failures (new_events w w') = [e2] \<longrightarrow> d = Errback e2)))
   \<and> (runOperation D args kw tid p w = (d, p', w') \<longrightarrow>
      (''execute'', e) \<in> set (cursor_failures (new_events w w')) \<longrightarrow>
      (\<exists>c. map_of (connections p') tid = Some c \<and> rollbacks (new_events w w') = [c]
         \<and> commits (new_events w w') = []
         \<and> (rollback_failures (new_events w w') = [] \<longrightarrow> d = Errback e)
         \<and> (\<forall>e2. rollback_failures (new_events w w') = [e2] \<longrightarrow> d = Errback e2)))
   \<and> (connect D tid p w = (Inr cn, p1, w1) \<longrightarrow>
      Transaction_init D cn w1 = (Inr tr, w2) \<longrightarrow>
      interact f D tr w2 = (Inl e, tr', w3) \<longrightarrow>
      runInteraction D f tid p w = (d, p', w') \<longrightarrow>
      map_of (connections p') tid = Some cn \<and> rollbacks (new_events w w') = [cn]
        \<and> commits (new_events w w') = []
        \<and> (rollback_failures (new_events w w') = [] \<longrightarrow> d = Errback e)
         \<and> (\<forall>e2. rollback_failures (new_events w w') = [e2] \<longrightarrow> d = Errback e2))"
proof -
  have deferred: "\<And>g r. p_deferToThread g tid p w = (d, p', w') \<Longrightarrow> g tid p w = (r, p', w')
      \<Longrightarrow> d = (case r of Inl x \<Rightarrow> Errback x | Inr v \<Rightarrow> Callback v)"
    by (auto simp: p_deferToThread_def split: sum.splits)
  have run: "\<And>g. p_deferToThread g tid p w = (d, p', w') \<Longrightarrow> \<exists>r. g tid p w = (r, p', w')"
    by (auto simp: p_deferToThread_def split: prod.splits sum.splits)
  have q: "\<exists>c. map_of (connections p') tid = Some c \<and> rollbacks (new_events w w') = [c]
         \<and> commits (new_events w w') = []
         \<and> (rollback_failures (new_events w w') = [] \<longrightarrow> d = Errback e)
         \<and> (\<forall>e2. rollback_failures (new_events w w') = [e2] \<longrightarrow> d = Errback e2)"
    if a: "runQuery D args kw tid p w = (d, p', w')"
      "(n, e) \<in> set (cursor_failures (new_events w w'))" "n = ''execute'' \<or> n = ''fetchall''"
  proof -
    from a(1) run obtain r where r: "p_runQuery D args kw tid p w = (r, p', w')"
      unfolding runQuery_def by blast
    from p_runQuery_failure[OF r a(2,3)] deferred[OF a(1)[unfolded runQuery_def] r]
    show ?thesis by auto
  qed
  have o: "\<exists>c. map_of (connections p') tid = Some c \<and> rollbacks (new_events w w') = [c]
         \<and> commits (new_events w w') = []
         \<and> (rollback_failures (new_events w w') = [] \<longrightarrow> d = Errback e)
         \<and> (\<forall>e2. rollback_failures (new_events w w') = [e2] \<longrightarrow> d = Errback e2)"
    if a: "runOperation D args kw tid p w = (d, p', w')"
      "(''execute'', e) \<in> set (cursor_failures (new_events w w'))"
  proof -
    from a(1) run obtain r where r: "p_runOperation D args kw tid p w = (r, p', w')"
      unfolding runOperation_def by blast
    from p_runOperation_failure[OF r a(2)] deferred[OF a(1)[unfolded runOperation_def] r]
    show ?thesis by auto
  qed
  have i: "map_of (connections p') tid = Some cn \<and> rollbacks (new_events w w') = [cn]
        \<and> commits (new_events w w') = []
        \<and> (rollback_failures (new_events w w') = [] \<longrightarrow> d = Errback e)
         \<and> (\<forall>e2. rollback_failures (new_events w w') = [e2] \<longrightarrow> d = Errback e2)"
    if a: "connect D tid p w = (Inr cn, p1, w1)" "Transaction_init D cn w1 = (Inr tr, w2)"
      "interact f D tr w2 = (Inl e, tr', w3)" "runInteraction D f tid p w = (d, p', w')"
  proof -
    from a(4) run obtain r where r: "p_runInteraction D f tid p w = (r, p', w')"
      unfolding runInteraction_def by blast
    from p_runInteraction_failure[OF a(1,2,3) r]
      deferred[OF a(4)[unfolded runInteraction_def] r]
    show ?thesis by auto
  qed
  from q o i show ?thesis by blast
qed
subsection \<open>The failing runs, evaluated\<close>

lemma world1_trace: "trace world1 = []"
  by (simp add: demo_defs Let_def)

lemma runQuery_execute_fails:
  "fst (runQuery execute_fails select1 Map.empty 7 pool1 world1)
     = Errback (DbError ''syntax error'')"
  "map_of (connections (fst (snd (runQuery execute_fails select1 Map.empty 7 pool1 world1)))) 7
     = Some 0"
  "new_events world1 (snd (snd (runQuery execute_fails select1 Map.empty 7 pool1 world1)))
     = [(DbConnect [PyStr ''test.db''] Map.empty, Created 0), (ConnCursor 0, Created 1),
        (CursorCall 1 ''execute'' select1 Map.empty, Raised (DbError ''syntax error'')),
        (ConnRollback 0, Returned PyNone)]"
  by (simp_all add: new_events_def world1_trace)
     (simp_all add: model_defs demo_defs execute_fails_def)

lemma runQuery_fetchall_fails:
  "fst (runQuery fetchall_fails select1 Map.empty 7 pool1 world1)
     = Errback (DbError ''connection lost'')"
  "map_of (connections (fst (snd (runQuery fetchall_fails select1 Map.empty 7 pool1 world1)))) 7
     = Some 0"
  "new_events world1 (snd (snd (runQuery fetchall_fails select1 Map.empty 7 pool1 world1)))
     = [(DbConnect [PyStr ''test.db''] Map.empty, Created 0), (ConnCursor 0, Created 1),
        (CursorCall 1 ''execute'' select1 Map.empty, Returned PyNone),
        (CursorCall 1 ''fetchall'' [] Map.empty, Raised (DbError ''connection lost'')),
        (ConnRollback 0, Returned PyNone)]"
  by (simp_all add: new_events_def world1_trace)
     (simp_all add: model_defs demo_defs fetchall_fails_def)

lemma runOperation_execute_fails:
  "fst (runOperation execute_fails select1 Map.empty 7 pool1 world1)
     = Errback (DbError ''syntax error'')"
  "map_of (connections (fst (snd (runOperation execute_fails select1 Map.empty 7 pool1 world1)))) 7
     = Some 0"
  "new_events world1 (snd (snd (runOperation execute_fails select1 Map.empty 7 pool1 world1)))
     = [(DbConnect [PyStr ''test.db''] Map.empty, Created 0), (ConnCursor 0, Created 1),
        (CursorCall 1 ''execute'' select1 Map.empty, Raised (DbError ''syntax error'')),
        (ConnRollback 0, Returned PyNone)]"
  by (simp_all add: new_events_def world1_trace)
     (simp_all add: model_defs demo_defs execute_fails_def)

lemma runInteraction_raise_ValueError:
  "fst (runInteraction ok_driver raise_ValueError 7 pool1 world1)
     = Errback (DbError ''ValueError'')"
  "new_events world1 (snd (snd (runInteraction ok_driver raise_ValueError 7 pool1 world1)))
     = [(DbConnect [PyStr ''test.db''] Map.empty, Created 0), (ConnCursor 0, Created 1),
        (ConnRollback 0, Returned PyNone)]"
  by (simp_all add: new_events_def world1_trace)
     (simp_all add: model_defs demo_defs raise_ValueError_def)

lemma runQuery_execute_rollback_fail:
  "map_of (connections
     (fst (snd (runQuery execute_rollback_fail select1 Map.empty 7 pool1 world1)))) 7 = Some 0"
  "new_events world1
     (snd (snd (runQuery execute_rollback_fail select1 Map.empty 7 pool1 world1)))
     = [(DbConnect [PyStr ''test.db''] Map.empty, Created 0), (ConnCursor 0, Created 1),
        (CursorCall 1 ''execute'' select1 Map.empty, Raised (DbError ''syntax error'')),
        (ConnRollback 0, Raised (DbError ''connection lost''))]"
  by (simp_all add: new_events_def world1_trace)
     (simp_all add: model_defs demo_defs execute_rollback_fail_def)

lemma connect_pool1:
  "fst (connect ok_driver 7 pool1 world1) = Inr 0"
  by (simp add: model_defs demo_defs)

lemma Transaction_init_pool1:
  "fst (Transaction_init ok_driver 0 (snd (snd (connect ok_driver 7 pool1 world1))))
     = Inr \<lparr>t_connection = 0, t_cursor = Some 1\<rparr>"
  by (simp add: model_defs demo_defs)

theorem failed_work_witness:
  "fst (runQuery execute_fails select1 Map.empty 7 pool1 world1)
     = Errback (DbError ''syntax error'')
   \<and> rollbacks (new_events world1
        (snd (snd (runQuery execute_fails select1 Map.empty 7 pool1 world1)))) = [0]
   \<and> commits (new_events world1
        (snd (snd (runQuery execute_fails select1 Map.empty 7 pool1 world1)))) = []
   \<and> fst (runQuery fetchall_fails select1 Map.empty 7 pool1 world1)
     = Errback (DbError ''connection lost'')
   \<and> rollbacks (new_events world1
        (snd (snd (runQuery fetchall_fails select1 Map.empty 7 pool1 world1)))) = [0]
   \<and> fst (runOperation execute_fails select1 Map.empty 7 pool1 world1)
     = Errback (DbError ''syntax error'')
   \<and> rollbacks (new_events world1
        (snd (snd (runOperation execute_fails select1 Map.empty 7 pool1 world1)))) = [0]
   \<and> fst (runInteraction ok_driver raise_ValueError 7 pool1 world1)
     = Errback (DbError ''ValueError'')
   \<and> rollbacks (new_events world1
        (snd (snd (runInteraction ok_driver raise_ValueError 7 pool1 world1)))) = [0]
   \<and> commits (new_events world1
        (snd (snd (runInteraction ok_driver raise_ValueError 7 pool1 world1)))) = []
   \<and> fst (runQuery execute_rollback_fail select1 Map.empty 7 pool1 world1)
     = Errback (DbError ''connection lost'')"
proof -
  let ?q1 = "runQuery execute_fails select1 Map.empty 7 pool1 world1"
  let ?q5 = "runQuery execute_rollback_fail select1 Map.empty 7 pool1 world1"
  have h5: "(''execute'', DbError ''syntax error'')
      \<in> set (cursor_failures (new_events world1 (snd (snd ?q5))))"
    "rollback_failures (new_events world1 (snd (snd ?q5))) = [DbError ''connection lost'']"
    by (simp_all add: runQuery_execute_rollback_fail reads)
  have r5: "fst ?q5 = Errback (DbError ''connection lost'')"
    using failed_work_rolls_back_once[of execute_rollback_fail select1 Map.empty 7 pool1 world1
        "fst ?q5" "fst (snd ?q5)" "snd (snd ?q5)" "''execute''" "DbError ''syntax error''"]
      h5 runQuery_execute_rollback_fail(1)
    by auto
  let ?q2 = "runQuery fetchall_fails select1 Map.empty 7 pool1 world1"
  let ?q3 = "runOperation execute_fails select1 Map.empty 7 pool1 world1"
  let ?q4 = "runInteraction ok_driver raise_ValueError 7 pool1 world1"
  let ?c = "connect ok_driver 7 pool1 world1"
  let ?t = "Transaction_init ok_driver 0 (snd (snd ?c))"
  let ?tr = "\<lparr>t_connection = 0, t_cursor = Some 1\<rparr>"
  have h1: "(''execute'', DbError ''syntax error'')
      \<in> set (cursor_failures (new_events world1 (snd (snd ?q1))))"
    "rollback_failures (new_events world1 (snd (snd ?q1))) = []"
    by (simp_all add: runQuery_execute_fails reads)
  have h2: "(''fetchall'', DbError ''connection lost'')
      \<in> set (cursor_failures (new_events world1 (snd (snd ?q2))))"
    "rollback_failures (new_events world1 (snd (snd ?q2))) = []"
    by (simp_all add: runQuery_fetchall_fails reads)
  have h3: "(''execute'', DbError ''syntax error'')
      \<in> set (cursor_failures (new_events world1 (snd (snd ?q3))))"
    "rollback_failures (new_events world1 (snd (snd ?q3))) = []"
    by (simp_all add: runOperation_execute_fails reads)
  have h4: "rollback_failures (new_events world1 (snd (snd ?q4))) = []"
    by (simp add: runInteraction_raise_ValueError reads)
  have c: "?c = (Inr 0, fst (snd ?c), snd (snd ?c))"
    using connect_pool1 by (simp add: prod_eq_iff)
  have t: "?t = (Inr ?tr, snd ?t)"
    using Transaction_init_pool1 by (simp add: prod_eq_iff)
  have i: "interact raise_ValueError ok_driver ?tr (snd ?t)
      = (Inl (DbError ''ValueError''), ?tr, snd ?t)"
    by (simp add: raise_ValueError_def)
  have r1: "rollbacks (new_events world1 (snd (snd ?q1))) = [0]"
    "commits (new_events world1 (snd (snd ?q1))) = []"
    "fst ?q1 = Errback (DbError ''syntax error'')"
    using failed_work_rolls_back_once[of execute_fails select1 Map.empty 7 pool1 world1
        "fst ?q1" "fst (snd ?q1)" "snd (snd ?q1)" "''execute''" "DbError ''syntax error''"]
      h1 runQuery_execute_fails(2)
    by auto
  have r2: "rollbacks (new_events world1 (snd (snd ?q2))) = [0]"
    "fst ?q2 = Errback (DbError ''connection lost'')"
    using failed_work_rolls_back_once[of fetchall_fails select1 Map.empty 7 pool1 world1
        "fst ?q2" "fst (snd ?q2)" "snd (snd ?q2)" "''fetchall''" "DbError ''connection lost''"]
      h2 runQuery_fetchall_fails(2)
    by auto
  have r3: "rollbacks (new_events world1 (snd (snd ?q3))) = [0]"
    "fst ?q3 = Errback (DbError ''syntax error'')"
    using failed_work_rolls_back_once[of execute_fails select1 Map.empty 7 pool1 world1
        "fst ?q3" "fst (snd ?q3)" "snd (snd ?q3)" _ "DbError ''syntax error''"]
      h3 runOperation_execute_fails(2)
    by auto
  have r4: "rollbacks (new_events world1 (snd (snd ?q4))) = [0]"
    "commits (new_events world1 (snd (snd ?q4))) = []"
    "fst ?q4 = Errback (DbError ''ValueError'')"
    using failed_work_rolls_back_once[of ok_driver _ _ 7 pool1 world1
        "fst ?q4" "fst (snd ?q4)" "snd (snd ?q4)" _ "DbError ''ValueError''"
        0 "fst (snd ?c)" "snd (snd ?c)" ?tr "snd ?t" raise_ValueError ?tr "snd ?t"]
      c t i h4
    by auto
  from r1 r2 r3 r4 r5 show ?thesis
    by simp
qed

subsection \<open>The two paths of \<^verbatim>\<open>_runInteraction\<close>\<close>

lemma p_runInteraction_after_return:
  assumes c: "connect D tid p w = (Inr cn, p1, w1)"
    and ti: "Transaction_init D cn w1 = (Inr tr, w2)"
    and it: "interact f D tr w2 = (Inr v, tr', w3)"
    and run: "p_runInteraction D f tid p w = (r, p', w')"
  shows "\<exists>cur out rest. t_cursor tr' = Some cur \<and> commits (new_events w w3) = []
           \<and> new_events w3 w' = (CursorCall cur ''close'' [] Map.empty, out) # rest
           \<and> (failures (new_events w3 w') = [] \<longrightarrow>
                (\<exists>x y. new_events w3 w' = [(CursorCall cur ''close'' [] Map.empty, Returned x),
                                            (ConnCommit cn, Returned y)])
                \<and> r = Inr v)
           \<and> (failures (new_events w3 w') \<noteq> [] \<longrightarrow>
                rollbacks (new_events w3 w') = [cn] \<and> (\<exists>x. r = Inl x))"
proof -
  from connect_effect[OF c] obtain evs1 where
    e1: "trace w1 = trace w @ evs1" "commits evs1 = []"
    by auto
  from Transaction_init_effect[OF ti] obtain evs2 where
    e2: "trace w2 = trace w1 @ evs2" "commits evs2 = []"
    and t: "t_connection tr = cn" "t_cursor tr \<noteq> None"
    by auto
  from interact_effect[OF it] t obtain evs3 cur where
    e3: "trace w3 = trace w2 @ evs3" "commits evs3 = []"
    and t': "t_connection tr' = cn" "t_cursor tr' = Some cur"
    by auto
  have before: "commits (new_events w w3) = []"
    using e1 e2 e3 by (simp add: new_events_def reads)
  from run c ti it t' before show ?thesis
    by (auto simp: p_runInteraction_def rollback_raise_def new_events_def reads
        call_attr_def Transaction_getattr_def
        split: prod.splits sum.splits dest!: invoke_trace)
qed

lemma p_runInteraction_after_raise:
  assumes c: "connect D tid p w = (Inr cn, p1, w1)"
    and ti: "Transaction_init D cn w1 = (Inr tr, w2)"
    and it: "interact f D tr w2 = (Inl e, tr', w3)"
    and run: "p_runInteraction D f tid p w = (r, p', w')"
  shows "(\<exists>out. new_events w3 w' = [(ConnRollback cn, out)])
           \<and> cursor_closes (new_events w3 w') = []
           \<and> (failures (new_events w3 w') = [] \<longrightarrow> r = Inl e)
          \<and> (\<forall>e2. failures (new_events w3 w') = [e2] \<longrightarrow> r = Inl e2)"
proof -
  from Transaction_init_effect[OF ti] have t: "t_connection tr = cn"
    by auto
  from interact_effect[OF it] t have t': "t_connection tr' = cn"
    by auto
  from run c ti it t' show ?thesis
    by (auto simp: p_runInteraction_def rollback_raise_def new_events_def reads
        split: prod.splits sum.splits dest!: invoke_trace)
qed

text \<open>
  Claim C3, as stated, fails: \<^verbatim>\<open>trans.close()\<close> and \<^verbatim>\<open>commit()\<close> are inside the
  \<^verbatim>\<open>try\<close>, so a failure of either, after the interaction function has returned, goes
  to the handler. With an interaction that returns 5 on a driver whose \<^verbatim>\<open>commit\<close>
  raises "disk full", the cursor is closed, the commit raises, the connection is rolled
  back, and the future fails: 5 does not become its success value.
\<close>

theorem commit_raises_counterexample:
  "interact return_five commit_fails handle1 world_h = (Inr (PyInt 5), handle1, world_h)
   \<and> new_events world1 (snd (snd (runInteraction commit_fails return_five 7 pool1 world1)))
     = [(DbConnect [PyStr ''test.db''] Map.empty, Created 0), (ConnCursor 0, Created 1),
        (CursorCall 1 ''close'' [] Map.empty, Returned PyNone),
        (ConnCommit 0, Raised (DbError ''disk full'')),
        (ConnRollback 0, Returned PyNone)]
   \<and> fst (runInteraction commit_fails return_five 7 pool1 world1)
     = Errback (DbError ''disk full'')
   \<and> fst (runInteraction commit_fails return_five 7 pool1 world1) \<noteq> Callback (PyInt 5)"
  by (simp_all add: new_events_def pool1_def world1_def world0_def kw1_def module1_def
      ConnectionPool_init_def addTrigger_def ThreadPool_def)
     (simp_all add: model_defs commit_fails_def returns1_def return_five_def)

text \<open>
  Claim C3, amended. Take a \<^verbatim>\<open>runInteraction\<close> whose thread got its connection and
  whose handle was built. If the interaction function returns \<open>v\<close>, nothing was committed
  up to that point and the next call the unit of work makes is \<^verbatim>\<open>close()\<close> on the
  handle's cursor, so the cursor is closed before any commit. When nothing raises from
  there on, what follows is exactly that \<^verbatim>\<open>close()\<close> and then \<^verbatim>\<open>commit()\<close> on the
  connection, and the future fires with \<open>v\<close>; when the \<^verbatim>\<open>close()\<close> or the
  \<^verbatim>\<open>commit()\<close> raises, the connection is rolled back, once, and the future fails. If
  the interaction function raises \<open>e\<close>, the only call that follows is \<^verbatim>\<open>rollback()\<close>
  on the connection: no cursor is closed on that path; when the rollback returns the
  future fails with \<open>e\<close>, and when it raises, with what it raised.
\<close>

theorem interaction_closes_then_commits:
  "connect D tid p w = (Inr cn, p1, w1) \<longrightarrow>
   Transaction_init D cn w1 = (Inr tr, w2) \<longrightarrow>
   interact f D tr w2 = (r, tr', w3) \<longrightarrow>
   runInteraction D f tid p w = (d, p', w') \<longrightarrow>
     (\<forall>v. r = Inr v \<longrightarrow>
        (\<exists>cur out rest. t_cursor tr' = Some cur \<and> commits (new_events w w3) = []
           \<and> new_events w3 w' = (CursorCall cur ''close'' [] Map.empty, out) # rest
           \<and> (failures (new_events w3 w') = [] \<longrightarrow>
                (\<exists>x y. new_events w3 w' = [(CursorCall cur ''close'' [] Map.empty, Returned x),
                                            (ConnCommit cn, Returned y)])
                \<and> d = Callback v)
           \<and> (failures (new_events w3 w') \<noteq> [] \<longrightarrow>
                rollbacks (new_events w3 w') = [cn] \<and> (\<exists>x. d = Errback x))))
     \<and> (\<forall>e. r = Inl e \<longrightarrow>
          (\<exists>out. new_events w3 w' = [(ConnRollback cn, out)])
          \<and> cursor_closes (new_events w3 w') = []
          \<and> (failures (new_events w3 w') = [] \<longrightarrow> d = Errback e)
          \<and> (\<forall>e2. failures (new_events w3 w') = [e2] \<longrightarrow> d = Errback e2))"
proof (intro impI)
  assume c: "connect D tid p w = (Inr cn, p1, w1)"
    and ti: "Transaction_init D cn w1 = (Inr tr, w2)"
    and it: "interact f D tr w2 = (r, tr', w3)"
    and run: "runInteraction D f tid p w = (d, p', w')"
  from run obtain r' where r': "p_runInteraction D f tid p w = (r', p', w')"
    and d: "d = (case r' of Inl x \<Rightarrow> Errback x | Inr v \<Rightarrow> Callback v)"
    by (auto simp: runInteraction_def p_deferToThread_def split: prod.splits sum.splits)
  have ok: "\<exists>cur out rest. t_cursor tr' = Some cur \<and> commits (new_events w w3) = []
           \<and> new_events w3 w' = (CursorCall cur ''close'' [] Map.empty, out) # rest
           \<and> (failures (new_events w3 w') = [] \<longrightarrow>
                (\<exists>x y. new_events w3 w' = [(CursorCall cur ''close'' [] Map.empty, Returned x),
                                            (ConnCommit cn, Returned y)])
                \<and> d = Callback v)
           \<and> (failures (new_events w3 w') \<noteq> [] \<longrightarrow>
                rollbacks (new_events w3 w') = [cn] \<and> (\<exists>x. d = Errback x))" if "r = Inr v" for v
    using p_runInteraction_after_return[OF c ti it[unfolded that] r'] d
    by force
  have bad: "(\<exists>out. new_events w3 w' = [(ConnRollback cn, out)])
          \<and> cursor_closes (new_events w3 w') = []
          \<and> (failures (new_events w3 w') = [] \<longrightarrow> d = Errback e)
          \<and> (\<forall>e2. failures (new_events w3 w') = [e2] \<longrightarrow> d = Errback e2)" if "r = Inl e" for e
    using p_runInteraction_after_raise[OF c ti it[unfolded that] r'] d
    by force
  from ok bad show "(\<forall>v. r = Inr v \<longrightarrow>
        (\<exists>cur out rest. t_cursor tr' = Some cur \<and> commits (new_events w w3) = []
           \<and> new_events w3 w' = (CursorCall cur ''close'' [] Map.empty, out) # rest
           \<and> (failures (new_events w3 w') = [] \<longrightarrow>
                (\<exists>x y. new_events w3 w' = [(CursorCall cur ''close'' [] Map.empty, Returned x),
                                            (ConnCommit cn, Returned y)])
                \<and> d = Callback v)
           \<and> (failures (new_events w3 w') \<noteq> [] \<longrightarrow>
                rollbacks (new_events w3 w') = [cn] \<and> (\<exists>x. d = Errback x))))
     \<and> (\<forall>e. r = Inl e \<longrightarrow>
          (\<exists>out. new_events w3 w' = [(ConnRollback cn, out)])
          \<and> cursor_closes (new_events w3 w') = []
          \<and> (failures (new_events w3 w') = [] \<longrightarrow> d = Errback e)
          \<and> (\<forall>e2. failures (new_events w3 w') = [e2] \<longrightarrow> d = Errback e2))"
    by blast
qed
lemma interact_fetch_one:
  "fst (interact fetch_one ok_driver \<lparr>t_connection = 0, t_cursor = Some 1\<rparr>
          (snd (Transaction_init ok_driver 0 (snd (snd (connect ok_driver 7 pool1 world1))))))
     = Inr PyNone"
  "fst (snd (interact fetch_one ok_driver \<lparr>t_connection = 0, t_cursor = Some 1\<rparr>
          (snd (Transaction_init ok_driver 0 (snd (snd (connect ok_driver 7 pool1 world1)))))))
     = \<lparr>t_connection = 0, t_cursor = Some 1\<rparr>"
  "trace (snd (snd (interact fetch_one ok_driver \<lparr>t_connection = 0, t_cursor = Some 1\<rparr>
          (snd (Transaction_init ok_driver 0 (snd (snd (connect ok_driver 7 pool1 world1))))))))
     = [(DbConnect [PyStr ''test.db''] Map.empty, Created 0), (ConnCursor 0, Created 1),
        (CursorCall 1 ''execute'' select1 Map.empty, Returned PyNone),
        (CursorCall 1 ''fetchone'' [] Map.empty, Returned PyNone)]"
  by (simp_all add: model_defs demo_defs fetch_one_def)

lemma runInteraction_fetch_one:
  "trace (snd (snd (runInteraction ok_driver fetch_one 7 pool1 world1)))
     = [(DbConnect [PyStr ''test.db''] Map.empty, Created 0), (ConnCursor 0, Created 1),
        (CursorCall 1 ''execute'' select1 Map.empty, Returned PyNone),
        (CursorCall 1 ''fetchone'' [] Map.empty, Returned PyNone),
        (CursorCall 1 ''close'' [] Map.empty, Returned PyNone),
        (ConnCommit 0, Returned PyNone)]"
  by (simp add: model_defs demo_defs fetch_one_def)

lemma Transaction_init_pool1_trace:
  "trace (snd (Transaction_init ok_driver 0 (snd (snd (connect ok_driver 7 pool1 world1)))))
     = [(DbConnect [PyStr ''test.db''] Map.empty, Created 0), (ConnCursor 0, Created 1)]"
  by (simp add: model_defs demo_defs)

lemma commit_fails_run:
  "connect commit_fails 7 pool1 world1 = (Inr 0, pool2, world2)"
  "Transaction_init commit_fails 0 world2 = (Inr handle1, world_h)"
  "interact return_five commit_fails handle1 world_h = (Inr (PyInt 5), handle1, world_h)"
  "new_events world_h (snd (snd (runInteraction commit_fails return_five 7 pool1 world1)))
     = [(CursorCall 1 ''close'' [] Map.empty, Returned PyNone),
        (ConnCommit 0, Raised (DbError ''disk full'')),
        (ConnRollback 0, Returned PyNone)]"
  by (simp_all add: new_events_def pool2_def world2_def world_h_def handle1_def)
     (simp_all add: model_defs demo_defs commit_fails_def return_five_def)

theorem interaction_closes_then_commits_witness:
  "fst (runInteraction ok_driver fetch_one 7 pool1 world1) = Callback PyNone
   \<and> drop 4 (trace (snd (snd (runInteraction ok_driver fetch_one 7 pool1 world1))))
       = [(CursorCall 1 ''close'' [] Map.empty, Returned PyNone), (ConnCommit 0, Returned PyNone)]
   \<and> fst (runInteraction ok_driver raise_ValueError 7 pool1 world1)
       = Errback (DbError ''ValueError'')
   \<and> cursor_closes (new_events world1
        (snd (snd (runInteraction ok_driver raise_ValueError 7 pool1 world1)))) = []
   \<and> rollbacks (new_events world_h
        (snd (snd (runInteraction commit_fails return_five 7 pool1 world1)))) = [0]"
proof -
  let ?q5 = "runInteraction commit_fails return_five 7 pool1 world1"
  have q5: "?q5 = (fst ?q5, fst (snd ?q5), snd (snd ?q5))"
    by simp
  have r5: "rollbacks (new_events world_h (snd (snd ?q5))) = [0]"
    using interaction_closes_then_commits[where D = commit_fails and tid = 7 and p = pool1
        and w = world1 and cn = 0 and ?p1.0 = pool2 and ?w1.0 = world2
        and tr = handle1 and ?w2.0 = world_h and f = return_five and r = "Inr (PyInt 5)"
        and tr' = handle1 and ?w3.0 = world_h and d = "fst ?q5" and p' = "fst (snd ?q5)"
        and w' = "snd (snd ?q5)"] commit_fails_run q5
    by (simp add: reads)
  let ?c = "connect ok_driver 7 pool1 world1"
  let ?t = "Transaction_init ok_driver 0 (snd (snd ?c))"
  let ?tr = "\<lparr>t_connection = 0, t_cursor = Some 1\<rparr>"
  let ?i = "interact fetch_one ok_driver ?tr (snd ?t)"
  let ?q = "runInteraction ok_driver fetch_one 7 pool1 world1"
  let ?q' = "runInteraction ok_driver raise_ValueError 7 pool1 world1"
  have c: "?c = (Inr 0, fst (snd ?c), snd (snd ?c))"
    using connect_pool1 by (simp add: prod_eq_iff)
  have t: "?t = (Inr ?tr, snd ?t)"
    using Transaction_init_pool1 by (simp add: prod_eq_iff)
  have i: "?i = (Inr PyNone, ?tr, snd (snd ?i))"
    using interact_fetch_one(1,2) by (simp add: prod_eq_iff)
  have i': "interact raise_ValueError ok_driver ?tr (snd ?t)
      = (Inl (DbError ''ValueError''), ?tr, snd ?t)"
    by (simp add: raise_ValueError_def)
  have n: "new_events (snd (snd ?i)) (snd (snd ?q))
      = [(CursorCall 1 ''close'' [] Map.empty, Returned PyNone), (ConnCommit 0, Returned PyNone)]"
    using interact_fetch_one(3) runInteraction_fetch_one by (simp add: new_events_def)
  have n': "new_events (snd ?t) (snd (snd ?q')) = [(ConnRollback 0, Returned PyNone)]"
    using runInteraction_raise_ValueError(2) Transaction_init_pool1_trace
    by (simp add: new_events_def world1_trace)
  have "fst ?q = Callback PyNone"
    using interaction_closes_then_commits[where D = ok_driver and tid = 7 and p = pool1
        and w = world1 and cn = 0 and ?p1.0 = "fst (snd ?c)" and ?w1.0 = "snd (snd ?c)"
        and tr = ?tr and ?w2.0 = "snd ?t" and f = fetch_one and r = "Inr PyNone"
        and tr' = ?tr and ?w3.0 = "snd (snd ?i)" and d = "fst ?q" and p' = "fst (snd ?q)"
        and w' = "snd (snd ?q)"] c t i n
    by (simp add: reads)
  moreover have "fst ?q' = Errback (DbError ''ValueError'')"
    using interaction_closes_then_commits[where D = ok_driver and tid = 7 and p = pool1
        and w = world1 and cn = 0 and ?p1.0 = "fst (snd ?c)" and ?w1.0 = "snd (snd ?c)"
        and tr = ?tr and ?w2.0 = "snd ?t" and f = raise_ValueError
        and r = "Inl (DbError ''ValueError'')"
        and tr' = ?tr and ?w3.0 = "snd ?t" and d = "fst ?q'" and p' = "fst (snd ?q')"
        and w' = "snd (snd ?q')"] c t i' n'
    by (simp add: reads)
  ultimately show ?thesis
    using runInteraction_fetch_one runInteraction_raise_ValueError(2) r5 by (simp add: reads)
qed

subsection \<open>\<^verbatim>\<open>connect()\<close>\<close>

lemma connect_registered:
  "map_of (connections p) tid = Some c \<Longrightarrow> connect D tid p w = (Inr c, p, w)"
  by (simp add: connect_def)

lemma connect_unregistered:
  assumes "map_of (connections p) tid = None" and "connect D tid p w = (r, p', w')"
  shows "\<exists>out rest. new_events w w' = (DbConnect (connargs p) (connkw p), out) # rest
           \<and> (\<forall>e. out = Raised e \<longrightarrow> rest = [] \<and> r = Inl e)
           \<and> (\<forall>c. out = Created c \<longrightarrow>
                 (case openfun p of
                    None \<Rightarrow> rest = []
                  | Some h \<Rightarrow> (\<exists>o'. rest = [(Openfun h c, o')]))
                 \<and> (failures rest = [] \<longrightarrow>
                      r = Inr c \<and> p' = p\<lparr>connections := AList.update tid c (connections p)\<rparr>
                      \<and> map_of (connections p') tid = Some c)
                 \<and> (\<forall>e2. failures rest = [e2] \<longrightarrow> r = Inl e2 \<and> p' = p))"
  using assms
  by (auto simp: connect_def Let_def log_msg_def new_events_def reads update_conv'
      split: option.splits prod.splits sum.splits if_splits
      dest!: invoke_trace create_trace)

lemma connect_failed:
  "connect D tid p w = (Inl e, p', w') \<Longrightarrow> p' = p"
  by (auto simp: connect_def Let_def split: option.splits prod.splits sum.splits if_splits)

text \<open>
  Claim C4, as stated, fails: \<^verbatim>\<open>self.openfun(conn)\<close> runs before
  \<^verbatim>\<open>self.connections[tid] = conn\<close>, and an exception from it leaves \<^verbatim>\<open>connect()\<close>.
  On a pool with a hook that raises "unknown charset", the driver's \<^verbatim>\<open>connect\<close>
  returns connection 0, the hook is called on it and raises, and \<^verbatim>\<open>connect()\<close> raises:
  connection 0 is neither stored nor returned, though the driver's \<^verbatim>\<open>connect\<close> did
  not raise.
\<close>

theorem hook_raises_counterexample:
  "openfun pool1_hook = Some 3 \<and> map_of (connections pool1_hook) 7 = None
   \<and> new_events world1 (snd (snd (connect hook_fails 7 pool1_hook world1)))
     = [(DbConnect [PyStr ''test.db''] Map.empty, Created 0),
        (Openfun 3 0, Raised (DbError ''unknown charset''))]
   \<and> fst (connect hook_fails 7 pool1_hook world1) = Inl (DbError ''unknown charset'')
   \<and> connections (fst (snd (connect hook_fails 7 pool1_hook world1))) = []"
  by (simp_all add: new_events_def pool1_hook_def world1_def world0_def kw1_def module1_def
      ConnectionPool_init_def addTrigger_def ThreadPool_def)
     (simp_all add: model_defs hook_fails_def returns1_def)

text \<open>
  Claim C4, amended. \<^verbatim>\<open>connect()\<close> under a thread identity that has a registry entry
  returns that connection and changes nothing. Under an identity without an entry, its
  first call is the driver's \<^verbatim>\<open>connect\<close> with the stored \<^verbatim>\<open>connargs\<close> and
  \<^verbatim>\<open>connkw\<close>; when that call creates a connection, the hook is called on it if and only
  if one is configured, and when nothing raised the connection is stored under the
  identity and returned. When the driver's \<^verbatim>\<open>connect\<close> raises, the exception is the
  outcome and nothing else is called; when the hook raises, its exception is the outcome.
  After either, as after any failure of \<^verbatim>\<open>connect()\<close>, the pool is unchanged: the
  identity still has no entry, so the next \<^verbatim>\<open>connect()\<close> under it starts with the
  driver's \<^verbatim>\<open>connect\<close> again.
\<close>

theorem connect_reuses_or_opens:
  "(map_of (connections p) tid = Some c \<longrightarrow> connect D tid p w = (Inr c, p, w))
   \<and> (map_of (connections p) tid = None \<longrightarrow> connect D tid p w = (r, p', w') \<longrightarrow>
        (\<exists>out rest. new_events w w' = (DbConnect (connargs p) (connkw p), out) # rest
           \<and> (\<forall>e. out = Raised e \<longrightarrow> rest = [] \<and> r = Inl e)
           \<and> (\<forall>c. out = Created c \<longrightarrow>
                 (case openfun p of
                    None \<Rightarrow> rest = []
                  | Some h \<Rightarrow> (\<exists>o'. rest = [(Openfun h c, o')]))
                 \<and> (failures rest = [] \<longrightarrow>
                      r = Inr c \<and> p' = p\<lparr>connections := AList.update tid c (connections p)\<rparr>
                      \<and> map_of (connections p') tid = Some c)
                 \<and> (\<forall>e2. failures rest = [e2] \<longrightarrow> r = Inl e2 \<and> p' = p)))
        \<and> (\<forall>e. r = Inl e \<longrightarrow>
              p' = p
              \<and> (\<forall>D2 w2 r3 p3 w3. connect D2 tid p' w2 = (r3, p3, w3) \<longrightarrow>
                    (\<exists>out rest.
                       new_events w2 w3 = (DbConnect (connargs p) (connkw p), out) # rest))))"
proof (intro conjI impI)
  assume "map_of (connections p) tid = Some c"
  then show "connect D tid p w = (Inr c, p, w)"
    by (rule connect_registered)
next
  assume n: "map_of (connections p) tid = None" and c: "connect D tid p w = (r, p', w')"
  from connect_unregistered[OF n c]
  show "\<exists>out rest. new_events w w' = (DbConnect (connargs p) (connkw p), out) # rest
           \<and> (\<forall>e. out = Raised e \<longrightarrow> rest = [] \<and> r = Inl e)
           \<and> (\<forall>c. out = Created c \<longrightarrow>
                 (case openfun p of
                    None \<Rightarrow> rest = []
                  | Some h \<Rightarrow> (\<exists>o'. rest = [(Openfun h c, o')]))
                 \<and> (failures rest = [] \<longrightarrow>
                      r = Inr c \<and> p' = p\<lparr>connections := AList.update tid c (connections p)\<rparr>
                      \<and> map_of (connections p') tid = Some c)
                 \<and> (\<forall>e2. failures rest = [e2] \<longrightarrow> r = Inl e2 \<and> p' = p))" .
  show "\<forall>e. r = Inl e \<longrightarrow>
              p' = p
              \<and> (\<forall>D2 w2 r3 p3 w3. connect D2 tid p' w2 = (r3, p3, w3) \<longrightarrow>
                    (\<exists>out rest.
                       new_events w2 w3 = (DbConnect (connargs p) (connkw p), out) # rest))"
  proof (intro allI impI)
    fix e
    assume "r = Inl e"
    with c have p': "p' = p"
      by (auto dest: connect_failed)
    have "\<exists>out rest. new_events w2 w3 = (DbConnect (connargs p) (connkw p), out) # rest"
      if "connect D2 tid p' w2 = (r3, p3, w3)" for D2 w2 r3 p3 w3
      using connect_unregistered[OF n that[unfolded p']] by blast
    with p' show "p' = p
              \<and> (\<forall>D2 w2 r3 p3 w3. connect D2 tid p' w2 = (r3, p3, w3) \<longrightarrow>
                    (\<exists>out rest.
                       new_events w2 w3 = (DbConnect (connargs p) (connkw p), out) # rest))"
      by blast
  qed
qed

lemma connect_pool1_full:
  "map_of (connections pool1) 7 = None"
  "map_of (connections pool1_hook) 7 = None"
  "map_of (connections (fst (snd (connect ok_driver 7 pool1 world1)))) 7 = Some 0"
  "new_events world1 (snd (snd (connect ok_driver 7 pool1 world1)))
     = [(DbConnect [PyStr ''test.db''] Map.empty, Created 0)]"
  "new_events world1 (snd (snd (connect ok_driver 7 pool1_hook world1)))
     = [(DbConnect [PyStr ''test.db''] Map.empty, Created 0), (Openfun 3 0, Returned PyNone)]"
  "new_events world1 (snd (snd (connect connect_fails 7 pool1 world1)))
     = [(DbConnect [PyStr ''test.db''] Map.empty, Raised (DbError ''connection refused''))]"
  "connargs pool1 = [PyStr ''test.db'']" "connkw pool1 = Map.empty"
  "connargs pool1_hook = [PyStr ''test.db'']" "connkw pool1_hook = Map.empty"
  "openfun pool1_hook = Some 3"
  by (simp_all add: new_events_def world1_trace)
     (simp_all add: model_defs demo_defs pool1_hook_def connect_fails_def)

lemma connect_hook_fails:
  "new_events world1 (snd (snd (connect hook_fails 7 pool1_hook world1)))
     = [(DbConnect [PyStr ''test.db''] Map.empty, Created 0),
        (Openfun 3 0, Raised (DbError ''unknown charset''))]"
  by (simp add: new_events_def world1_trace)
     (simp add: model_defs demo_defs pool1_hook_def hook_fails_def)

theorem connect_reuses_or_opens_witness:
  "fst (connect ok_driver 7 pool1 world1) = Inr 0
   \<and> connect ok_driver 7 (fst (snd (connect ok_driver 7 pool1 world1))) world0
       = (Inr 0, fst (snd (connect ok_driver 7 pool1 world1)), world0)
   \<and> fst (connect ok_driver 7 pool1_hook world1) = Inr 0
   \<and> map_of (connections (fst (snd (connect ok_driver 7 pool1_hook world1)))) 7 = Some 0
   \<and> fst (connect connect_fails 7 pool1 world1) = Inl (DbError ''connection refused'')
   \<and> fst (snd (connect connect_fails 7 pool1 world1)) = pool1
   \<and> fst (connect hook_fails 7 pool1_hook world1) = Inl (DbError ''unknown charset'')
   \<and> fst (snd (connect hook_fails 7 pool1_hook world1)) = pool1_hook"
proof -
  let ?h = "connect hook_fails 7 pool1_hook world1"
  have h: "fst ?h = Inl (DbError ''unknown charset'') \<and> fst (snd ?h) = pool1_hook"
    using connect_reuses_or_opens[where D = hook_fails and tid = 7 and p = pool1_hook
        and w = world1 and r = "fst ?h" and p' = "fst (snd ?h)" and w' = "snd (snd ?h)"]
      connect_pool1_full connect_hook_fails
    by (simp add: reads)
  let ?a = "connect ok_driver 7 pool1 world1"
  let ?b = "connect ok_driver 7 pool1_hook world1"
  let ?c = "connect connect_fails 7 pool1 world1"
  have a: "fst ?a = Inr 0"
    using connect_reuses_or_opens[where D = ok_driver and tid = 7 and p = pool1 and w = world1
        and r = "fst ?a" and p' = "fst (snd ?a)" and w' = "snd (snd ?a)"]
      connect_pool1_full
    by (simp add: reads update_conv')
  have a': "connect ok_driver 7 (fst (snd ?a)) world0 = (Inr 0, fst (snd ?a), world0)"
    using connect_reuses_or_opens[where D = ok_driver and tid = 7 and p = "fst (snd ?a)"
        and w = world0 and c = 0] connect_pool1_full(3)
    by simp
  have b: "fst ?b = Inr 0 \<and> map_of (connections (fst (snd ?b))) 7 = Some 0"
    using connect_reuses_or_opens[where D = ok_driver and tid = 7 and p = pool1_hook
        and w = world1 and r = "fst ?b" and p' = "fst (snd ?b)" and w' = "snd (snd ?b)"]
      connect_pool1_full
    by (simp add: reads update_conv')
  have c: "fst ?c = Inl (DbError ''connection refused'') \<and> fst (snd ?c) = pool1"
    using connect_reuses_or_opens[where D = connect_fails and tid = 7 and p = pool1
        and w = world1 and r = "fst ?c" and p' = "fst (snd ?c)" and w' = "snd (snd ?c)"]
      connect_pool1_full
    by (simp add: reads update_conv')
  from a a' b c h show ?thesis
    by simp
qed

subsection \<open>What \<^verbatim>\<open>connect()\<close> and \<^verbatim>\<open>disconnect()\<close> leave alone\<close>

lemma connect_frame:
  assumes "connect D t p w = (r, p', w')"
  shows "p' = p\<lparr>connections := connections p'\<rparr>
         \<and> (\<forall>t'. t' \<noteq> t \<longrightarrow> map_of (connections p') t' = map_of (connections p) t')"
  using assms
  by (auto simp: connect_def Let_def update_conv'
      split: option.splits prod.splits sum.splits if_splits)

lemma disconnect_frame:
  assumes "disconnect D t c p w = (r, p', w')"
  shows "p' = p\<lparr>connections := connections p'\<rparr>
         \<and> (\<forall>t'. t' \<noteq> t \<longrightarrow> map_of (connections p') t' = map_of (connections p) t')"
  using assms
  by (auto simp: disconnect_def delete_conv'
      split: option.splits prod.splits sum.splits if_splits)

text \<open>
  Claim C10. \<^verbatim>\<open>connect()\<close> and \<^verbatim>\<open>disconnect(conn)\<close> run under thread identity \<open>t\<close>
  leave every attribute of the pool but the registry as it was, in particular
  \<^verbatim>\<open>dbapiName\<close>, \<^verbatim>\<open>min\<close>, \<^verbatim>\<open>max\<close>, \<^verbatim>\<open>noisy\<close>, \<^verbatim>\<open>openfun\<close>, \<^verbatim>\<open>connargs\<close> and
  \<^verbatim>\<open>connkw\<close>, and in the registry they leave the entry of every other identity as it
  was; this holds whether they return or raise.
\<close>

theorem connect_disconnect_frame:
  "(connect D t p w = (r, p', w') \<or> disconnect D t c p w = (r2, p', w')) \<longrightarrow>
     (\<forall>t'. t' \<noteq> t \<longrightarrow> map_of (connections p') t' = map_of (connections p) t')
     \<and> p' = p\<lparr>connections := connections p'\<rparr>
     \<and> dbapiName p' = dbapiName p \<and> pool_min p' = pool_min p \<and> pool_max p' = pool_max p
     \<and> noisy p' = noisy p \<and> openfun p' = openfun p \<and> connargs p' = connargs p
     \<and> connkw p' = connkw p"
proof
  assume "connect D t p w = (r, p', w') \<or> disconnect D t c p w = (r2, p', w')"
  then have f: "p' = p\<lparr>connections := connections p'\<rparr>
         \<and> (\<forall>t'. t' \<noteq> t \<longrightarrow> map_of (connections p') t' = map_of (connections p) t')"
    using connect_frame disconnect_frame by blast
  then have "p' = p\<lparr>connections := connections p'\<rparr>" ..
  then have "dbapiName p' = dbapiName p \<and> pool_min p' = pool_min p \<and> pool_max p' = pool_max p
     \<and> noisy p' = noisy p \<and> openfun p' = openfun p \<and> connargs p' = connargs p
     \<and> connkw p' = connkw p"
    by (cases p, cases p') simp
  with f show "(\<forall>t'. t' \<noteq> t \<longrightarrow> map_of (connections p') t' = map_of (connections p) t')
     \<and> p' = p\<lparr>connections := connections p'\<rparr>
     \<and> dbapiName p' = dbapiName p \<and> pool_min p' = pool_min p \<and> pool_max p' = pool_max p
     \<and> noisy p' = noisy p \<and> openfun p' = openfun p \<and> connargs p' = connargs p
     \<and> connkw p' = connkw p"
    by blast
qed

lemma pool2_connections: "connections pool2 = [(7, 0)]"
  by (simp add: pool2_def model_defs demo_defs)

lemma pool3_connections: "connections pool3 = [(7, 0), (8, 1)]"
  by (simp add: pool3_def pool2_def world2_def model_defs demo_defs)

theorem connect_disconnect_frame_witness:
  "map_of (connections pool3) 7 = Some 0 \<and> pool_min pool3 = pool_min pool2
   \<and> map_of (connections (fst (snd (disconnect ok_driver 8 (Some 1) pool3 world3)))) 7 = Some 0
   \<and> connkw (fst (snd (disconnect ok_driver 8 (Some 1) pool3 world3))) = connkw pool3"
proof -
  let ?d = "disconnect ok_driver 8 (Some 1) pool3 world3"
  have c: "connect ok_driver 8 pool2 world2 = (fst (connect ok_driver 8 pool2 world2), pool3, world3)"
    by (simp add: pool3_def world3_def)
  have d: "?d = (fst ?d, fst (snd ?d), snd (snd ?d))"
    by simp
  have "(7::nat) \<noteq> 8"
    by simp
  with connect_disconnect_frame[where D = ok_driver and t = 8 and p = pool2 and w = world2
      and p' = pool3 and w' = world3 and r = "fst (connect ok_driver 8 pool2 world2)"] c
    connect_disconnect_frame[where D = ok_driver and t = 8 and p = pool3 and w = world3
      and c = "Some 1" and p' = "fst (snd ?d)" and w' = "snd (snd ?d)" and ?r2.0 = "fst ?d"] d
    pool2_connections pool3_connections
  show ?thesis
    by (metis map_of_Cons_code(2))
qed

subsection \<open>Thread affinity\<close>

lemma update_absent: "map_of al k = None \<Longrightarrow> AList.update k v al = al @ [(k, v)]"
  by (induction al) (auto split: if_splits)

lemma registry_ok_lookup:
  assumes "registry_ok p w" and "map_of (connections p) t = Some c"
  shows "c < next_id w"
    and "map_of (connections p) t' = Some c \<Longrightarrow> t' = t"
proof -
  from assms(2) have m: "(t, c) \<in> set (connections p)"
    by (rule map_of_SomeD)
  with assms(1) show "c < next_id w"
    by (force simp: registry_ok_def list_all_iff)
  assume "map_of (connections p) t' = Some c"
  then have m': "(t', c) \<in> set (connections p)"
    by (rule map_of_SomeD)
  from assms(1) have "inj_on snd (set (connections p))"
    by (simp add: registry_ok_def distinct_map)
  from inj_onD[OF this _ m' m] show "t' = t"
    by simp
qed

lemma connect_step:
  assumes ok: "registry_ok p w" and c: "connect D t p w = (r, p1, w1)"
  shows "registry_ok p1 w1" and "next_id w \<le> next_id w1"
    and "map_of (connections p1) t' = Some c' \<Longrightarrow>
           map_of (connections p) t' = Some c' \<or> (next_id w \<le> c')"
    and "r = Inr cn \<Longrightarrow> map_of (connections p1) t = Some cn"
proof -
  show "r = Inr cn \<Longrightarrow> map_of (connections p1) t = Some cn"
    using connect_effect[OF c] by auto
  show "next_id w \<le> next_id w1"
    using c
    by (auto simp: connect_def Let_def log_msg_def
        split: option.splits prod.splits sum.splits if_splits
        dest!: invoke_trace create_trace)
  show "map_of (connections p1) t' = Some c' \<Longrightarrow>
           map_of (connections p) t' = Some c' \<or> (next_id w \<le> c')"
    using c
    by (auto simp: connect_def Let_def log_msg_def update_conv'
        split: option.splits prod.splits sum.splits if_splits
        dest!: invoke_trace create_trace)
  have fresh: "next_id w \<notin> snd ` set (connections p)"
    using ok by (force simp: registry_ok_def list_all_iff)
  have bound: "list_all (\<lambda>c. c < Suc (next_id w)) (map snd (connections p))"
    using ok by (auto simp: registry_ok_def list_all_iff)
  have absent: "t \<notin> fst ` set (connections p)" if "map_of (connections p) t = None"
    using that by (simp add: map_of_eq_None_iff)
  from ok c fresh bound absent show "registry_ok p1 w1"
    by (auto simp: connect_def Let_def log_msg_def registry_ok_def update_absent
        split: option.splits prod.splits sum.splits if_splits
        dest!: invoke_trace create_trace)
qed

lemma disconnect_step:
  assumes ok: "registry_ok p w" and d: "disconnect D t a p w = (r, p1, w1)"
  shows "registry_ok p1 w1" and "next_id w1 = next_id w"
    and "map_of (connections p1) t' = Some c' \<Longrightarrow> map_of (connections p) t' = Some c'"
proof -
  show "next_id w1 = next_id w"
    using d
    by (auto simp: disconnect_def p_close_def log_msg_def
        split: option.splits prod.splits sum.splits if_splits dest!: invoke_trace)
  show "map_of (connections p1) t' = Some c' \<Longrightarrow> map_of (connections p) t' = Some c'"
    using d
    by (auto simp: disconnect_def delete_conv'
        split: option.splits prod.splits sum.splits if_splits)
  have del: "distinct (map snd (AList.delete t (connections p)))"
    "list_all (\<lambda>c. c < next_id w) (map snd (AList.delete t (connections p)))"
    using ok by (auto simp: registry_ok_def AList.delete_eq distinct_map_filter list_all_iff)
  from ok d del show "registry_ok p1 w1"
    by (auto simp: disconnect_def p_close_def log_msg_def registry_ok_def distinct_delete
        split: option.splits prod.splits sum.splits if_splits dest!: invoke_trace)
qed

text \<open>
  Every connection a schedule hands out was either registered for that thread at the
  start or created during the schedule, and no connection is handed to two threads.
\<close>

lemma run_ops_affinity:
  "registry_ok p w \<Longrightarrow> run_ops D ops p w = (rets, p', w') \<Longrightarrow>
     (\<forall>t c. (t, c) \<in> set rets \<longrightarrow> map_of (connections p) t = Some c \<or> next_id w \<le> c)
     \<and> (\<forall>t1 t2 c. (t1, c) \<in> set rets \<longrightarrow> (t2, c) \<in> set rets \<longrightarrow> t1 = t2)"
proof (induction ops arbitrary: p w rets)
  case Nil
  then show ?case by simp
next
  case (Cons x ops)
  show ?case
  proof (cases x)
    case (Connect t)
    obtain r p1 w1 where c: "connect D t p w = (r, p1, w1)"
      by (cases "connect D t p w")
    obtain rets1 where run: "run_ops D ops p1 w1 = (rets1, p', w')"
      and rets: "rets = (case r of Inr c \<Rightarrow> [(t, c)] | Inl e \<Rightarrow> []) @ rets1"
      using Cons.prems(2) Connect c by (auto split: prod.splits)
    note step = connect_step[OF Cons.prems(1) c]
    from Cons.IH[OF step(1) run] have
      ih1: "\<And>t c. (t, c) \<in> set rets1 \<Longrightarrow> map_of (connections p1) t = Some c \<or> next_id w1 \<le> c"
      and ih2: "\<And>t1 t2 c. (t1, c) \<in> set rets1 \<Longrightarrow> (t2, c) \<in> set rets1 \<Longrightarrow> t1 = t2"
      by blast+
    have old: "map_of (connections p) t' = Some c' \<or> next_id w \<le> c'"
      if "(t', c') \<in> set rets1" for t' c'
      using ih1[OF that] step(2) step(3)[of t' c'] by auto
    show ?thesis
    proof (cases r)
      case (Inl e)
      with rets ih2 old show ?thesis by auto
    next
      case (Inr cn)
      from step(4)[OF Inr] have reg: "map_of (connections p1) t = Some cn" .
      have here: "map_of (connections p) t = Some cn \<or> next_id w \<le> cn"
        using step(3)[OF reg] .
      have same: "t2 = t" if "(t2, cn) \<in> set rets1" for t2
        using ih1[OF that] registry_ok_lookup[OF step(1) reg] by auto
      from rets Inr ih2 old here same show ?thesis
        by auto
    qed
  next
    case (Disconnect t a)
    obtain r p1 w1 where d: "disconnect D t a p w = (r, p1, w1)"
      by (cases "disconnect D t a p w")
    with Cons.prems(2) Disconnect have run: "run_ops D ops p1 w1 = (rets, p', w')"
      by simp
    note step = disconnect_step[OF Cons.prems(1) d]
    from Cons.IH[OF step(1) run] step(2) step(3) show ?thesis
      by metis
  qed
qed

text \<open>
  A thread's entry survives every call under another identity and every \<^verbatim>\<open>connect()\<close>
  under its own.
\<close>

lemma run_ops_keeps_entry:
  "map_of (connections p) t = Some c \<Longrightarrow> \<forall>a. Disconnect t a \<notin> set ops \<Longrightarrow>
   run_ops D ops p w = (rets, p', w') \<Longrightarrow>
     map_of (connections p') t = Some c \<and> (\<forall>c'. (t, c') \<in> set rets \<longrightarrow> c' = c)"
proof (induction ops arbitrary: p w rets)
  case Nil
  then show ?case by simp
next
  case (Cons x ops)
  show ?case
  proof (cases x)
    case (Connect u)
    obtain r p1 w1 where c: "connect D u p w = (r, p1, w1)"
      by (cases "connect D u p w")
    obtain rets1 where run: "run_ops D ops p1 w1 = (rets1, p', w')"
      and rets: "rets = (case r of Inr c \<Rightarrow> [(u, c)] | Inl e \<Rightarrow> []) @ rets1"
      using Cons.prems(3) Connect c by (auto split: prod.splits)
    have keep: "map_of (connections p1) t = Some c"
    proof (cases "u = t")
      case True
      with c Cons.prems(1) show ?thesis by (simp add: connect_registered)
    next
      case False
      with connect_frame[OF c] Cons.prems(1) show ?thesis by simp
    qed
    have mine: "r = Inr c" if "u = t"
      using that c Cons.prems(1) by (simp add: connect_registered)
    from Cons.prems(2) have "\<forall>a. Disconnect t a \<notin> set ops"
      by simp
    from Cons.IH[OF keep this run] rets mine show ?thesis
      by (auto split: sum.splits)
  next
    case (Disconnect u a)
    with Cons.prems(2) have ne: "u \<noteq> t"
      by auto
    obtain r p1 w1 where d: "disconnect D u a p w = (r, p1, w1)"
      by (cases "disconnect D u a p w")
    with Cons.prems(3) Disconnect have run: "run_ops D ops p1 w1 = (rets, p', w')"
      by simp
    from disconnect_frame[OF d] ne Cons.prems(1) have keep: "map_of (connections p1) t = Some c"
      by simp
    from Cons.prems(2) have "\<forall>a. Disconnect t a \<notin> set ops"
      by simp
    from Cons.IH[OF keep this run] show ?thesis .
  qed
qed

lemma ConnectionPool_init_registry_ok:
  "registry_ok (fst (ConnectionPool_init m name args kw w))
               (snd (ConnectionPool_init m name args kw w))"
  by (simp add: ConnectionPool_init_def Let_def addTrigger_def registry_ok_def
      split: prod.splits)

text \<open>
  Claim C5. Once \<^verbatim>\<open>connect()\<close> under thread identity \<open>t\<close> has returned connection
  \<open>c\<close>, then after any schedule of \<^verbatim>\<open>connect()\<close> and \<^verbatim>\<open>disconnect()\<close> calls in which
  no \<^verbatim>\<open>disconnect\<close> runs under \<open>t\<close>, every \<^verbatim>\<open>connect()\<close> under \<open>t\<close>, in the schedule
  and after it, returns the same \<open>c\<close>. And on a pool whose registry is in good order, as
  that of every newly constructed pool is, no schedule ever returns one connection to
  \<^verbatim>\<open>connect()\<close> calls under two different identities.
\<close>

theorem thread_affinity:
  "(connect D t p w = (Inr c, p1, w1) \<longrightarrow> (\<forall>a. Disconnect t a \<notin> set ops) \<longrightarrow>
    run_ops D ops p1 w1 = (rets, p2, w2) \<longrightarrow>
      (\<forall>c'. (t, c') \<in> set rets \<longrightarrow> c' = c) \<and> connect D t p2 w2 = (Inr c, p2, w2))
   \<and> (registry_ok p w \<longrightarrow> run_ops D ops p w = (rets, p', w') \<longrightarrow>
        (\<forall>t1 t2 c. (t1, c) \<in> set rets \<longrightarrow> (t2, c) \<in> set rets \<longrightarrow> t1 = t2))
   \<and> registry_ok (fst (ConnectionPool_init m name args kw w))
                  (snd (ConnectionPool_init m name args kw w))"
proof (intro conjI impI)
  assume c: "connect D t p w = (Inr c, p1, w1)" and n: "\<forall>a. Disconnect t a \<notin> set ops"
    and run: "run_ops D ops p1 w1 = (rets, p2, w2)"
  from connect_effect[OF c] have "map_of (connections p1) t = Some c"
    by auto
  from run_ops_keeps_entry[OF this n run]
  show "\<forall>c'. (t, c') \<in> set rets \<longrightarrow> c' = c" and "connect D t p2 w2 = (Inr c, p2, w2)"
    by (simp_all add: connect_registered)
next
  assume "registry_ok p w" and "run_ops D ops p w = (rets, p', w')"
  from run_ops_affinity[OF this]
  show "\<forall>t1 t2 c. (t1, c) \<in> set rets \<longrightarrow> (t2, c) \<in> set rets \<longrightarrow> t1 = t2"
    by blast
next
  show "registry_ok (fst (ConnectionPool_init m name args kw w))
                  (snd (ConnectionPool_init m name args kw w))"
    by (rule ConnectionPool_init_registry_ok)
qed
lemma run_schedule1:
  "fst (run_ops ok_driver schedule1 pool1 world1) = [(7, 0), (8, 1), (7, 0), (8, 2)]"
  by (simp add: schedule1_def disconnect_def p_close_def model_defs demo_defs)

lemma run_schedule2:
  "fst (run_ops ok_driver schedule2 pool2 world2) = [(8, 1), (7, 0), (8, 2)]"
  by (simp add: schedule2_def pool2_def world2_def disconnect_def p_close_def
      model_defs demo_defs)

theorem thread_affinity_witness:
  "registry_ok pool1 world1
   \<and> (7, 0) \<in> set (fst (run_ops ok_driver schedule1 pool1 world1))
   \<and> (8, 0) \<notin> set (fst (run_ops ok_driver schedule1 pool1 world1))
   \<and> (7, 2) \<notin> set (fst (run_ops ok_driver schedule2 pool2 world2))
   \<and> fst (connect ok_driver 7 (fst (snd (run_ops ok_driver schedule2 pool2 world2)))
             (snd (snd (run_ops ok_driver schedule2 pool2 world2)))) = Inr 0"
proof -
  let ?r1 = "run_ops ok_driver schedule1 pool1 world1"
  let ?r2 = "run_ops ok_driver schedule2 pool2 world2"
  note th = thread_affinity[where D = ok_driver and m = module1 and name = "''db''"
      and args = "[PyStr ''test.db'']" and kw = kw1]
  have ok: "registry_ok pool1 world1"
    using th[where w = world0] by (simp add: pool1_def world1_def)
  have c: "connect ok_driver 7 pool1 world1 = (Inr 0, pool2, world2)"
    using connect_pool1 by (simp add: pool2_def world2_def prod_eq_iff)
  have n: "\<forall>a. Disconnect 7 a \<notin> set schedule2"
    by (simp add: schedule2_def)
  have r1: "?r1 = (fst ?r1, fst (snd ?r1), snd (snd ?r1))"
    and r2: "?r2 = (fst ?r2, fst (snd ?r2), snd (snd ?r2))"
    by simp_all
  have in1: "(7, 0) \<in> set (fst ?r1)"
    by (simp add: run_schedule1)
  have a: "\<forall>t1 t2 c. (t1, c) \<in> set (fst ?r1) \<longrightarrow> (t2, c) \<in> set (fst ?r1) \<longrightarrow> t1 = t2"
    using th[where p = pool1 and w = world1 and ops = schedule1 and rets = "fst ?r1"
        and p' = "fst (snd ?r1)" and w' = "snd (snd ?r1)"] ok r1
    by blast
  have out1: "(8, 0) \<notin> set (fst ?r1)"
  proof
    assume "(8, 0) \<in> set (fst ?r1)"
    with a in1 have "(8::nat) = 7"
      by blast
    then show False
      by simp
  qed
  have b: "(\<forall>c'. (7, c') \<in> set (fst ?r2) \<longrightarrow> c' = 0)
      \<and> connect ok_driver 7 (fst (snd ?r2)) (snd (snd ?r2))
          = (Inr 0, fst (snd ?r2), snd (snd ?r2))"
    using th[where t = 7 and p = pool1 and w = world1 and c = 0 and ?p1.0 = pool2
        and ?w1.0 = world2 and ops = schedule2 and rets = "fst ?r2"
        and ?p2.0 = "fst (snd ?r2)" and ?w2.0 = "snd (snd ?r2)"] c n r2
    by blast
  then have out2: "(7, 2) \<notin> set (fst ?r2)"
    by auto
  from ok in1 out1 out2 b show ?thesis
    by simp
qed

subsection \<open>The bounds of the pool\<close>

text \<open>
  Claim C8, as stated, fails: \<^verbatim>\<open>ConnectionPool("db", "test.db", cp_min=0, cp_max=5)\<close>
  is constructed with \<^verbatim>\<open>min = 0\<close>, so \<open>0 < min\<close> does not hold on it.
\<close>

theorem init_min_zero_counterexample:
  "pool_min (fst (ConnectionPool_init module1 ''db'' [PyStr ''test.db''] kw_zero world0)) = 0
   \<and> pool_max (fst (ConnectionPool_init module1 ''db'' [PyStr ''test.db''] kw_zero world0)) = 5
   \<and> \<not> (0 < pool_min (fst (ConnectionPool_init module1 ''db'' [PyStr ''test.db''] kw_zero world0)))"
  by (simp add: ConnectionPool_init_def kw_zero_def kw1_def Let_def split: prod.splits)

text \<open>
  Claim C8, amended. For all supplied \<^verbatim>\<open>cp_min\<close> and \<^verbatim>\<open>cp_max\<close> (3 and 5 when not
  supplied) the constructor returns a pool on which \<open>min \<le> max\<close>: \<^verbatim>\<open>max\<close> is the
  maximum as supplied and \<^verbatim>\<open>min\<close> the smaller of the supplied minimum and that maximum;
  the thread pool is built with these two bounds. \<open>0 < min\<close> holds exactly when both
  supplied values are positive.
\<close>

theorem init_reconciles_bounds:
  "pool_min (fst (ConnectionPool_init m name args kw w))
     = min (case cp_min kw of Some n \<Rightarrow> n | None \<Rightarrow> 3) (case cp_max kw of Some n \<Rightarrow> n | None \<Rightarrow> 5)
   \<and> pool_max (fst (ConnectionPool_init m name args kw w))
     = (case cp_max kw of Some n \<Rightarrow> n | None \<Rightarrow> 5)
   \<and> pool_min (fst (ConnectionPool_init m name args kw w))
     \<le> pool_max (fst (ConnectionPool_init m name args kw w))
   \<and> (0 < pool_min (fst (ConnectionPool_init m name args kw w))
        \<longleftrightarrow> 0 < (case cp_min kw of Some n \<Rightarrow> n | None \<Rightarrow> 3)
            \<and> 0 < (case cp_max kw of Some n \<Rightarrow> n | None \<Rightarrow> 5))
   \<and> threadpool (fst (ConnectionPool_init m name args kw w))
     = ThreadPool (pool_min (fst (ConnectionPool_init m name args kw w)))
                  (pool_max (fst (ConnectionPool_init m name args kw w)))"
  by (auto simp: ConnectionPool_init_def Let_def split: prod.splits option.splits)

theorem init_reconciles_bounds_witness:
  "pool_min (fst (ConnectionPool_init module1 ''db'' [] kw_reversed world0)) = 2
   \<and> pool_max (fst (ConnectionPool_init module1 ''db'' [] kw_reversed world0)) = 2"
  using init_reconciles_bounds[of module1 "''db''" "[]" kw_reversed world0]
  by (simp add: kw_reversed_def kw1_def)

subsection \<open>\<^verbatim>\<open>disconnect(conn)\<close>\<close>

text \<open>
  Claim C7, as stated, fails: thread 7 has no entry in the registry of the newly
  constructed pool, and \<^verbatim>\<open>disconnect(None)\<close> under it raises nothing; it returns and
  leaves pool and world as they were.
\<close>

theorem disconnect_None_counterexample:
  "map_of (connections pool1) 7 = None
   \<and> disconnect ok_driver 7 None pool1 world1 = (Inr (), pool1, world1)"
  by (simp add: disconnect_def pool1_def ConnectionPool_init_def Let_def split: prod.splits)

lemma disconnect_own:
  assumes "map_of (connections p) tid = Some cn"
    and "disconnect D tid (Some cn) p w = (r, p', w')"
  shows "\<exists>out. new_events w w' = [(ConnClose cn, out)]
           \<and> (failures (new_events w w') = [] \<longrightarrow>
                r = Inr () \<and> p' = p\<lparr>connections := AList.delete tid (connections p)\<rparr>
                \<and> map_of (connections p') tid = None)
           \<and> (\<forall>e. out = Raised e \<longrightarrow> r = Inl e \<and> p' = p)"
  using assms
  by (auto simp: disconnect_def p_close_def log_msg_def new_events_def reads delete_conv'
      split: prod.splits sum.splits if_splits dest!: invoke_trace)

text \<open>
  Claim C7, amended. \<^verbatim>\<open>disconnect(conn)\<close> under a thread identity raises the ownership
  error, and changes nothing, whenever \<open>conn\<close> is not what the registry holds for that
  identity, \<^verbatim>\<open>None\<close> standing for no entry: under an identity without an entry every
  connection is refused, while \<^verbatim>\<open>disconnect(None)\<close> returns and does nothing. Called
  with the identity's own connection it calls \<^verbatim>\<open>close()\<close> on it and nothing else, and
  when that returns the identity's entry is removed; when it raises, the entry stays.
\<close>

theorem disconnect_checks_ownership:
  "(c \<noteq> map_of (connections p) tid \<longrightarrow>
      disconnect D tid c p w = (Inl (Exception ''wrong connection for thread''), p, w))
   \<and> (map_of (connections p) tid = None \<longrightarrow>
        disconnect D tid (Some cn) p w = (Inl (Exception ''wrong connection for thread''), p, w)
        \<and> disconnect D tid None p w = (Inr (), p, w))
   \<and> (map_of (connections p) tid = Some cn \<longrightarrow>
        disconnect D tid (Some cn) p w = (r, p', w') \<longrightarrow>
          (\<exists>out. new_events w w' = [(ConnClose cn, out)]
             \<and> (failures (new_events w w') = [] \<longrightarrow>
                  r = Inr () \<and> p' = p\<lparr>connections := AList.delete tid (connections p)\<rparr>
                  \<and> map_of (connections p') tid = None)
             \<and> (\<forall>e. out = Raised e \<longrightarrow> r = Inl e \<and> p' = p)))"
proof (intro conjI impI)
  assume "c \<noteq> map_of (connections p) tid"
  then show "disconnect D tid c p w = (Inl (Exception ''wrong connection for thread''), p, w)"
    by (simp add: disconnect_def)
next
  assume "map_of (connections p) tid = None"
  then show "disconnect D tid (Some cn) p w
      = (Inl (Exception ''wrong connection for thread''), p, w)"
    and "disconnect D tid None p w = (Inr (), p, w)"
    by (simp_all add: disconnect_def)
next
  assume "map_of (connections p) tid = Some cn" "disconnect D tid (Some cn) p w = (r, p', w')"
  then show "\<exists>out. new_events w w' = [(ConnClose cn, out)]
             \<and> (failures (new_events w w') = [] \<longrightarrow>
                  r = Inr () \<and> p' = p\<lparr>connections := AList.delete tid (connections p)\<rparr>
                  \<and> map_of (connections p') tid = None)
             \<and> (\<forall>e. out = Raised e \<longrightarrow> r = Inl e \<and> p' = p)"
    by (rule disconnect_own)
qed

lemma disconnect_pool2:
  "new_events world2 (snd (snd (disconnect ok_driver 7 (Some 0) pool2 world2)))
     = [(ConnClose 0, Returned PyNone)]"
  by (simp add: new_events_def disconnect_def p_close_def pool2_def world2_def
      model_defs demo_defs)

theorem disconnect_checks_ownership_witness:
  "disconnect ok_driver 8 (Some 0) pool2 world2
     = (Inl (Exception ''wrong connection for thread''), pool2, world2)
   \<and> disconnect ok_driver 7 (Some 5) pool2 world2
     = (Inl (Exception ''wrong connection for thread''), pool2, world2)
   \<and> disconnect ok_driver 8 None pool2 world2 = (Inr (), pool2, world2)
   \<and> fst (disconnect ok_driver 7 (Some 0) pool2 world2) = Inr ()
   \<and> connections (fst (snd (disconnect ok_driver 7 (Some 0) pool2 world2))) = []"
proof -
  let ?d = "disconnect ok_driver 7 (Some 0) pool2 world2"
  have m: "map_of (connections pool2) 8 = None" "map_of (connections pool2) 7 = Some 0"
    "Some 5 \<noteq> map_of (connections pool2) 7"
    by (simp_all add: pool2_connections)
  have d: "?d = (fst ?d, fst (snd ?d), snd (snd ?d))"
    by simp
  have a: "disconnect ok_driver 8 (Some 0) pool2 world2
      = (Inl (Exception ''wrong connection for thread''), pool2, world2)"
    "disconnect ok_driver 8 None pool2 world2 = (Inr (), pool2, world2)"
    using disconnect_checks_ownership[where D = ok_driver and tid = 8 and p = pool2
        and w = world2 and cn = 0] m(1)
    by simp_all
  have b: "disconnect ok_driver 7 (Some 5) pool2 world2
      = (Inl (Exception ''wrong connection for thread''), pool2, world2)"
    using disconnect_checks_ownership[where D = ok_driver and tid = 7 and p = pool2
        and w = world2 and c = "Some 5"] m(3)
    by simp
  have c: "fst ?d = Inr () \<and> connections (fst (snd ?d)) = []"
    using disconnect_checks_ownership[where D = ok_driver and tid = 7 and p = pool2
        and w = world2 and cn = 0 and r = "fst ?d" and p' = "fst (snd ?d)"
        and w' = "snd (snd ?d)"] m(2) d disconnect_pool2 pool2_connections
    by (simp add: reads)
  from a b c show ?thesis
    by simp
qed

subsection \<open>The transaction handle\<close>

lemma closed_cursors_simps:
  "closed_cursors [] = []"
  "closed_cursors (evs @ evs') = closed_cursors evs @ closed_cursors evs'"
  "closed_cursors ((c, out) # evs) =
     (case (c, out) of
        (CursorCall x n _ _, Returned v) \<Rightarrow> if n = ''close'' then [x] else []
      | _ \<Rightarrow> []) @ closed_cursors evs"
  by (simp_all add: closed_cursors_def)

lemma handle1_built:
  "Transaction_init ok_driver 0 world2 = (Inr handle1, world_h)"
  "trace world_h = [(DbConnect [PyStr ''test.db''] Map.empty, Created 0), (ConnCursor 0, Created 1)]"
  by (simp_all add: world_h_def handle1_def world2_def model_defs demo_defs)

text \<open>
  Claim C9, as stated, fails: the handle forwards \<^verbatim>\<open>close\<close> like any other name.
  After the caller's \<^verbatim>\<open>trans.close()\<close> the handle still holds cursor 1, whose
  \<^verbatim>\<open>close()\<close> has returned, and the caller's next \<^verbatim>\<open>trans.execute(...)\<close> is a call on
  that closed cursor.
\<close>

theorem handle_exposes_closed_cursor_counterexample:
  "fst (Transaction_init ok_driver 0 world2) = Inr handle1
   \<and> fst (snd (interact close_then_execute ok_driver handle1 world_h)) = handle1
   \<and> t_cursor handle1 = Some 1
   \<and> Transaction_getattr handle1 ''execute'' = Inr (1, ''execute'')
   \<and> new_events world_h (snd (snd (interact close_then_execute ok_driver handle1 world_h)))
       = [(CursorCall 1 ''close'' [] Map.empty, Returned PyNone),
          (CursorCall 1 ''execute'' select1 Map.empty, Returned PyNone)]
   \<and> closed_cursors (trace (snd (snd (interact close_then_execute ok_driver handle1 world_h))))
       = [1]"
  using handle1_built
  by (simp add: new_events_def close_then_execute_def call_attr_def Transaction_getattr_def
      invoke_def handle1_def ok_driver_def returns1_def closed_cursors_simps)

lemma Transaction_init_opens:
  assumes "Transaction_init D cn w = (Inr t, w')"
  shows "t_connection t = cn \<and> t_cursor t = Some (next_id w)
         \<and> new_events w w' = [(ConnCursor cn, Created (next_id w))]"
  using assms
  by (auto simp: Transaction_init_def reopen_def Let_def new_events_def
      split: prod.splits sum.splits dest!: create_trace)

lemma reopen_closes_first:
  assumes "t_cursor t = Some c" and "reopen D t w = (r, t', w')"
  shows "t_connection t' = t_connection t \<and> t_cursor t' \<noteq> None
         \<and> (\<exists>out rest. new_events w w' = (CursorCall c ''close'' [] Map.empty, out) # rest)
         \<and> (r = Inr () \<longrightarrow>
              (\<exists>x. new_events w w'
                      = [(CursorCall c ''close'' [] Map.empty, Returned x),
                         (ConnCursor (t_connection t), Created (next_id w))])
              \<and> t_cursor t' = Some (next_id w))"
  using assms
  by (auto simp: reopen_def Let_def new_events_def
      split: prod.splits sum.splits dest!: invoke_trace create_trace)

lemma fresh_not_closed:
  assumes "cursors_exist w"
  shows "next_id w \<notin> set (closed_cursors (trace w))"
  using assms by (auto simp: cursors_exist_def list_all_iff)

text \<open>
  Claim C9, amended. Constructing a handle calls \<^verbatim>\<open>cursor()\<close> on the connection and
  nothing else, and the handle holds the new cursor; \<^verbatim>\<open>reopen()\<close> on a handle with a
  cursor calls \<^verbatim>\<open>close()\<close> on that cursor first and, when it returns, \<^verbatim>\<open>cursor()\<close> on
  the same connection, and the handle then holds the new cursor. The handle's cursor is
  never null afterwards, whether \<^verbatim>\<open>reopen()\<close> returned or raised, and whatever the
  caller does through the handle. Every name looked up through \<^verbatim>\<open>__getattr__\<close> is the
  cursor's attribute of that name, so a call through the handle is that call on the
  cursor. The cursor held right after construction or after a \<^verbatim>\<open>reopen()\<close> that returned
  is a new object that has not been closed; nothing more is promised about closed
  cursors, since \<^verbatim>\<open>close\<close> is forwarded like every other name.
\<close>

theorem handle_cursor_lifecycle:
  "(Transaction_init D cn w = (Inr t, w') \<longrightarrow>
      t_connection t = cn \<and> t_cursor t = Some (next_id w)
      \<and> new_events w w' = [(ConnCursor cn, Created (next_id w))]
      \<and> (cursors_exist w \<longrightarrow> next_id w \<notin> set (closed_cursors (trace w'))))
   \<and> (t_cursor h = Some c \<longrightarrow> reopen D h w = (r, h', w') \<longrightarrow>
        t_connection h' = t_connection h \<and> t_cursor h' \<noteq> None
        \<and> (\<exists>out rest. new_events w w' = (CursorCall c ''close'' [] Map.empty, out) # rest)
        \<and> (r = Inr () \<longrightarrow>
             (\<exists>x. new_events w w'
                     = [(CursorCall c ''close'' [] Map.empty, Returned x),
                        (ConnCursor (t_connection h), Created (next_id w))])
             \<and> t_cursor h' = Some (next_id w)
             \<and> (cursors_exist w \<longrightarrow> c < next_id w \<longrightarrow>
                  next_id w \<notin> set (closed_cursors (trace w')))))
   \<and> (t_cursor h = Some c \<longrightarrow>
        Transaction_getattr h name = Inr (c, name)
        \<and> call_attr D h name args kw w = invoke D (CursorCall c name args kw) w)
   \<and> (t_cursor h \<noteq> None \<longrightarrow> interact f D h w = (ri, hi, wi) \<longrightarrow> t_cursor hi \<noteq> None)"
proof (intro conjI impI)
  assume i: "Transaction_init D cn w = (Inr t, w')"
  from Transaction_init_opens[OF i]
  show "t_connection t = cn" and "t_cursor t = Some (next_id w)"
    and n: "new_events w w' = [(ConnCursor cn, Created (next_id w))]"
    by simp_all
  assume "cursors_exist w"
  from fresh_not_closed[OF this] i show "next_id w \<notin> set (closed_cursors (trace w'))"
    by (auto simp: Transaction_init_def reopen_def Let_def closed_cursors_simps
        split: prod.splits sum.splits dest!: create_trace)
next
  assume c: "t_cursor h = Some c" and r: "reopen D h w = (r, h', w')"
  from reopen_closes_first[OF c r]
  show "t_connection h' = t_connection h" and "t_cursor h' \<noteq> None"
    and "\<exists>out rest. new_events w w' = (CursorCall c ''close'' [] Map.empty, out) # rest"
    by simp_all
  assume ok: "r = Inr ()"
  from reopen_closes_first[OF c r] ok
  show "\<exists>x. new_events w w'
                     = [(CursorCall c ''close'' [] Map.empty, Returned x),
                        (ConnCursor (t_connection h), Created (next_id w))]"
    and "t_cursor h' = Some (next_id w)"
    by simp_all
  assume "cursors_exist w" and "c < next_id w"
  with fresh_not_closed[of w] c r ok show "next_id w \<notin> set (closed_cursors (trace w'))"
    by (auto simp: reopen_def Let_def closed_cursors_simps
        split: prod.splits sum.splits dest!: invoke_trace create_trace)
next
  assume "t_cursor h = Some c"
  then show "Transaction_getattr h name = Inr (c, name)"
    and "call_attr D h name args kw w = invoke D (CursorCall c name args kw) w"
    by (simp_all add: call_attr_def Transaction_getattr_def)
next
  assume "t_cursor h \<noteq> None" and "interact f D h w = (ri, hi, wi)"
  with interact_effect[of f D h w ri hi wi] show "t_cursor hi \<noteq> None"
    by simp
qed
lemma worlds_evaluated:
  "next_id world2 = 1" "next_id world_h = 2" "cursors_exist world2" "cursors_exist world_h"
  "fst (reopen ok_driver handle1 world_h) = Inr ()"
  by (simp_all add: cursors_exist_def closed_cursors_simps world_h_def handle1_def world2_def
      model_defs demo_defs)

theorem handle_cursor_lifecycle_witness:
  "t_cursor handle1 = Some 1
   \<and> 1 \<notin> set (closed_cursors (trace world_h))
   \<and> fst (reopen ok_driver handle1 world_h) = Inr ()
   \<and> t_cursor (fst (snd (reopen ok_driver handle1 world_h))) = Some 2
   \<and> 2 \<notin> set (closed_cursors (trace (snd (snd (reopen ok_driver handle1 world_h)))))
   \<and> Transaction_getattr handle1 ''fetchone'' = Inr (1, ''fetchone'')
   \<and> t_cursor (fst (snd (interact close_then_execute ok_driver handle1 world_h))) \<noteq> None"
proof -
  let ?r = "reopen ok_driver handle1 world_h"
  let ?i = "interact close_then_execute ok_driver handle1 world_h"
  have c: "t_cursor handle1 = Some 1"
    by (simp add: handle1_def)
  have r: "?r = (Inr (), fst (snd ?r), snd (snd ?r))"
    using worlds_evaluated(5) by (simp add: prod_eq_iff)
  have i: "?i = (fst ?i, fst (snd ?i), snd (snd ?i))"
    by simp
  have a: "1 \<notin> set (closed_cursors (trace world_h))"
    using handle_cursor_lifecycle[where D = ok_driver and cn = 0 and w = world2
        and t = handle1 and w' = world_h] handle1_built(1) worlds_evaluated(1,3)
    by simp
  have b: "t_cursor (fst (snd ?r)) = Some 2
      \<and> 2 \<notin> set (closed_cursors (trace (snd (snd ?r))))"
    using handle_cursor_lifecycle[where D = ok_driver and h = handle1 and c = 1
        and w = world_h and r = "Inr ()" and h' = "fst (snd ?r)" and w' = "snd (snd ?r)"]
      c r worlds_evaluated(2,4)
    by simp
  have d: "Transaction_getattr handle1 ''fetchone'' = Inr (1, ''fetchone'')"
    using handle_cursor_lifecycle[where h = handle1 and c = 1 and name = "''fetchone''"] c
    by simp
  have e: "t_cursor (fst (snd ?i)) \<noteq> None"
    using handle_cursor_lifecycle[where D = ok_driver and h = handle1 and w = world_h
        and f = close_then_execute and ri = "fst ?i" and hi = "fst (snd ?i)"
        and wi = "snd (snd ?i)"] c i
    by simp
  from a b c d e worlds_evaluated(5) show ?thesis
    by simp
qed

text \<open>
  A \<^verbatim>\<open>reopen()\<close> that raises leaves the handle as it was: either the old cursor's
  \<^verbatim>\<open>close()\<close> raised, or it returned and \<^verbatim>\<open>cursor()\<close> raised, and then the handle
  still holds the cursor it has just closed.
\<close>

lemma reopen_failed_keeps_cursor:
  assumes "t_cursor h = Some c" and "reopen D h w = (Inl e, h', w')"
  shows "h' = h
         \<and> (new_events w w' = [(CursorCall c ''close'' [] Map.empty, Raised e)]
            \<or> (\<exists>x. new_events w w' = [(CursorCall c ''close'' [] Map.empty, Returned x),
                                       (ConnCursor (t_connection h), Raised e)]
                   \<and> c \<in> set (closed_cursors (trace w'))))"
  using assms
  by (auto simp: reopen_def Let_def new_events_def closed_cursors_simps
      split: prod.splits sum.splits dest!: invoke_trace create_trace)

subsection \<open>\<^verbatim>\<open>close()\<close> and \<^verbatim>\<open>finalClose()\<close>\<close>

lemma p_close_effect:
  "p_close D p c w = (r, w') \<Longrightarrow>
     trace w' = trace w @ [(ConnClose c, case r of Inl e \<Rightarrow> Raised e | Inr v \<Rightarrow> Returned v)]"
  by (auto simp: p_close_def log_msg_def dest!: invoke_trace split: if_splits)

lemma close_each_effect:
  "close_each D p cs w = (r, w') \<Longrightarrow>
     \<exists>evs. trace w' = trace w @ evs \<and> (failures evs = [] \<longleftrightarrow> r = Inr ())
       \<and> (r = Inr () \<longrightarrow> conn_closes evs = cs)"
proof (induction cs arbitrary: w)
  case Nil
  then show ?case by (simp add: reads)
next
  case (Cons c cs)
  obtain r1 w1 where c: "p_close D p c w = (r1, w1)"
    by (cases "p_close D p c w")
  note t = p_close_effect[OF c]
  show ?case
  proof (cases r1)
    case (Inl e)
    with Cons.prems c t show ?thesis
      by (auto simp: reads)
  next
    case (Inr v)
    with Cons.prems c have "close_each D p cs w1 = (r, w')"
      by simp
    from Cons.IH[OF this] t Inr show ?thesis
      by (auto simp: reads)
  qed
qed

text \<open>
  \<^verbatim>\<open>finalClose()\<close> reads no attribute that \<^verbatim>\<open>start()\<close> sets, so it runs on any pool:
  when no \<^verbatim>\<open>close()\<close> of a connection raises, it has called \<^verbatim>\<open>close()\<close> on the
  registered connections, each once, and left the registry empty.
\<close>

lemma finalClose_effect:
  assumes "finalClose D p w = (r, p', w')"
  shows "(failures (new_events w w') = [] \<longleftrightarrow> r = Inr ())
         \<and> (r = Inr () \<longrightarrow>
               conn_closes (new_events w w') = map snd (connections p) \<and> connections p' = [])
         \<and> running p' = False \<and> shutdownID p' = shutdownID p"
proof -
  let ?p1 = "p\<lparr>threadpool := threadpool_stop (threadpool p), running := False\<rparr>"
  obtain r1 w1 where c: "close_each D ?p1 (map snd (connections p)) w = (r1, w1)"
    by (cases "close_each D ?p1 (map snd (connections p)) w")
  from close_each_effect[OF c] assms c show ?thesis
    by (auto simp: finalClose_def Let_def new_events_def split: sum.splits)
qed

text \<open>
  On a pool that \<^verbatim>\<open>start()\<close> or an earlier \<^verbatim>\<open>close()\<close> has given the attribute
  \<^verbatim>\<open>shutdownID\<close>, \<^verbatim>\<open>close()\<close> does what \<^verbatim>\<open>finalClose()\<close> does, and a second
  \<^verbatim>\<open>close()\<close> returns without calling anything.
\<close>

lemma close_started:
  assumes "shutdownID p = Some s" and "close D p w = (r, p', w')"
  shows "(failures (new_events w w') = [] \<longleftrightarrow> r = Inr ())
         \<and> (r = Inr () \<longrightarrow>
               conn_closes (new_events w w') = map snd (connections p) \<and> connections p' = []
               \<and> fst (close D p' w') = Inr ()
               \<and> new_events w' (snd (snd (close D p' w'))) = [])"
proof -
  obtain p2 w2 where f: "finalClose D p2 w2 = (r, p', w')"
    and p2: "connections p2 = connections p" "shutdownID p2 \<noteq> None"
    and w2: "trace w2 = trace w"
    using assms
    by (auto simp: close_def Let_def removeSystemEventTrigger_def
        split: option.splits prod.splits)
  from finalClose_effect[OF f] p2 w2
  have one: "(failures (new_events w w') = [] \<longleftrightarrow> r = Inr ())
         \<and> (r = Inr () \<longrightarrow>
               conn_closes (new_events w w') = map snd (connections p) \<and> connections p' = [])"
    and s: "shutdownID p' \<noteq> None"
    by (auto simp: new_events_def)
  have again: "fst (close D p' w') = Inr () \<and> new_events w' (snd (snd (close D p' w'))) = []"
    if "connections p' = []"
    using that s
    by (auto simp: close_def finalClose_def Let_def removeSystemEventTrigger_def new_events_def
        split: option.splits prod.splits)
  from one again show ?thesis
    by blast
qed

text \<open>
  \<^verbatim>\<open>__init__\<close> does not assign \<^verbatim>\<open>shutdownID\<close> and the class has no such attribute,
  so until \<^verbatim>\<open>start()\<close> runs, \<^verbatim>\<open>close()\<close> stops at its first statement.
\<close>

lemma init_no_shutdownID:
  "shutdownID (fst (ConnectionPool_init m name args kw w)) = None"
  by (simp add: ConnectionPool_init_def Let_def split: prod.splits)

lemma close_without_shutdownID:
  "shutdownID p = None \<Longrightarrow> close D p w = (Inl (AttributeError ''shutdownID''), p, w)"
  by (simp add: close_def)

lemma start_sets_shutdownID:
  "\<not> running p \<Longrightarrow> shutdownID (fst (start p w)) \<noteq> None"
  by (simp add: start_def addTrigger_def split: prod.splits)

lemma started_pool:
  "shutdownID pool_started = Some (Some 1)" "connections pool_started = [(7, 0), (8, 1)]"
  by (simp_all add: pool_started_def start_def addTrigger_def pool3_def world3_def pool2_def
      world2_def model_defs demo_defs split: prod.splits)

lemma close_started_example:
  "fst (close ok_driver pool_started world_started) = Inr ()
   \<and> conn_closes (new_events world_started (snd (snd (close ok_driver pool_started world_started))))
       = [0, 1]
   \<and> connections (fst (snd (close ok_driver pool_started world_started))) = []"
proof -
  let ?c = "close ok_driver pool_started world_started"
  have n: "new_events world_started (snd (snd ?c))
      = [(ConnClose 0, Returned PyNone), (ConnClose 1, Returned PyNone)]"
    by (simp add: new_events_def close_def finalClose_def p_close_def
        removeSystemEventTrigger_def threadpool_stop_def pool_started_def world_started_def
        start_def addTrigger_def pool3_def world3_def pool2_def world2_def model_defs demo_defs
        split: prod.splits)
  have c: "?c = (fst ?c, fst (snd ?c), snd (snd ?c))"
    by simp
  from close_started[OF started_pool(1) c] n started_pool(2) show ?thesis
    by (simp add: reads)
qed

text \<open>
  Claim C6 fails on the code. Thread 7 holds connection 0 in the registry of a pool whose
  \<^verbatim>\<open>start()\<close> never ran. \<^verbatim>\<open>close()\<close> on it raises \<^verbatim>\<open>AttributeError\<close> at its first
  statement, the test of \<^verbatim>\<open>self.shutdownID\<close>: \<^verbatim>\<open>finalClose()\<close> is not reached, no
  connection is closed and the registry keeps its entry. \<^verbatim>\<open>finalClose()\<close> called
  directly on the same pool closes the connection and empties the registry.
\<close>

theorem close_never_started_raises:
  "shutdownID pool2 = None \<and> running pool2 = False \<and> connections pool2 = [(7, 0)]
   \<and> close ok_driver pool2 world2 = (Inl (AttributeError ''shutdownID''), pool2, world2)
   \<and> fst (finalClose ok_driver pool2 world2) = Inr ()
   \<and> connections (fst (snd (finalClose ok_driver pool2 world2))) = []
   \<and> new_events world2 (snd (snd (finalClose ok_driver pool2 world2)))
       = [(ConnClose 0, Returned PyNone)]"
  by (simp add: close_def finalClose_def p_close_def new_events_def threadpool_stop_def
      pool2_def world2_def model_defs demo_defs split: prod.splits)

end
